theory Spec2Isabelle
  imports Complex_Main "HOL-Library.Multiset"
begin

section \<open>Values and collaborators\<close>

text \<open>
  JavaScript values as they arrive in cross-frame messages and configuration objects.
  Numbers are modelled as reals (no NaN); objects as association lists.
\<close>

datatype jsval =
    JUndefined
  | JNull
  | JBool bool
  | JNum real
  | JStr string
  | JArr "jsval list"
  | JObj "(string \<times> jsval) list"

text \<open>JavaScript truthiness, as used by \<open>if (x)\<close>, \<open>!x\<close> and \<open>filter(Boolean)\<close>.\<close>

fun truthy :: "jsval \<Rightarrow> bool" where
  "truthy JUndefined = False"
| "truthy JNull = False"
| "truthy (JBool b) = b"
| "truthy (JNum x) = (x \<noteq> 0)"
| "truthy (JStr s) = (s \<noteq> [])"
| "truthy (JArr xs) = True"
| "truthy (JObj kvs) = True"

text \<open>Property access \<open>data.k\<close> on a message object: a missing key reads \<open>undefined\<close>.\<close>

type_synonym message = "(string \<times> jsval) list"

definition field :: "message \<Rightarrow> string \<Rightarrow> jsval" where
  "field data k = (case map_of data k of None \<Rightarrow> JUndefined | Some v \<Rightarrow> v)"

datatype error =
    TypeError
  | VtkNotLoaded
  | LoadError string
  | FieldNotFoundError string

text \<open>
  A raise keeps the mutations made before it: \<open>Inl (e, s)\<close> is error \<open>e\<close> thrown
  with the viewer left in state \<open>s\<close>.
\<close>

type_synonym 's result = "(error \<times> 's) + 's"

type_synonym vec3 = "real \<times> real \<times> real"

text \<open>position, focal point, view-up and parallel scale of a camera\<close>

type_synonym pose = "vec3 \<times> vec3 \<times> vec3 \<times> real"

datatype vpid = VpA | VpB

text \<open>
  The closures registered by \<open>_setupCameraSync\<close>:
  \<open>() => { if (this.syncCameras) syncCamera(source, target) }\<close>.
\<close>

datatype callback = SyncCallback vpid vpid

record camera =
  position :: vec3
  focalPoint :: vec3
  viewUp :: vec3
  parallelScale :: real
  onModified :: "callback list"

type_synonym actor = nat

text \<open>A dataset: its named attributes with their native \<open>[min, max]\<close>.\<close>

type_synonym polydata = "(string \<times> (real \<times> real)) list"

type_synonym rgb = "real \<times> real \<times> real"

text \<open>Which branch of the actor configuration ran for the last load.\<close>

datatype look =
    Unstyled
  | TextureFixes
  | VertexColors bool
  | DefaultColor rgb bool

record viewport =
  vid :: vpid
  camera :: camera
  rendererActors :: "actor list"
  renders :: nat
  eventsBound :: bool
  glDeleted :: bool
  rwDeleted :: bool
  look :: look
  coloring :: "(jsval \<times> jsval) option"
  actors :: "actor list"
  polyData :: "polydata option"
  filename :: jsval

record dual_config =
  cfg_layout :: jsval
  cfg_syncCameras :: jsval
  cfg_syncFields :: jsval
  cfg_defaultMeshColorA :: rgb
  cfg_defaultMeshColorB :: rgb
  cfg_showEdges :: bool
  cfg_enableFields :: bool
  cfg_enableTextures :: bool

definition DUAL_CONFIG :: dual_config where
  "DUAL_CONFIG = \<lparr>
     cfg_layout = JStr ''side-by-side'',
     cfg_syncCameras = JBool True,
     cfg_syncFields = JBool True,
     cfg_defaultMeshColorA = (6/10, 8/10, 1),
     cfg_defaultMeshColorB = (6/10, 8/10, 1),
     cfg_showEdges = False,
     cfg_enableFields = True,
     cfg_enableTextures = True \<rparr>"

text \<open>Outbound notifications posted to the parent frame.\<close>

datatype notification =
    MeshLoaded jsval jsval string bool bool
  | ErrorNote "jsval option" string
  | ScreenshotNote
  | FieldsAvailable "(string \<times> (real \<times> real)) list"

record dualviewer =
  config :: dual_config
  viewportA :: "viewport option"
  viewportB :: "viewport option"
  layout :: jsval
  syncCameras :: jsval
  syncFields :: jsval
  isInitialized :: bool
  isUpdatingCamera :: bool
  messageCleanup :: bool
  listening :: bool
  resizeObserverA :: "bool option"
  resizeObserverB :: "bool option"
  outbox :: "notification list"

text \<open>
  What the code takes from collaborators that are not part of the controller:
  whether \<open>window.vtk\<close> is present, whether a camera setter notifies even when the value
  is unchanged, whether the rendering library accepts \<open>delete()\<close> again on a render
  window already deleted (the library bundled with the repository does not: the second
  \<open>openGLRenderWindow.delete()\<close> raises a TypeError), \<open>extractFilename\<close>, and the
  camera pose computed from the actors' bounds by \<open>combineBounds\<close>,
  \<open>isValidBounds\<close> and \<open>positionInitialCamera\<close> (\<open>None\<close> when the bounds are
  not valid), and the pose that \<open>CameraController.setCameraView\<close> computes from a
  direction and the actors' bounds.
\<close>

record env =
  vtkLoaded :: bool
  eagerNotify :: bool
  repeatRelease :: bool
  extractFilename :: "jsval \<Rightarrow> jsval"
  framing :: "actor list \<Rightarrow> pose option"
  viewPose :: "jsval \<Rightarrow> actor list \<Rightarrow> pose"

section \<open>DualViewer: construction and viewports\<close>

text \<open>
  The constructor; \<open>cfg\<close> is the merged configuration
  \<open>{ ...DUAL_CONFIG, ...config }\<close>.
\<close>

definition DualViewer :: "dual_config \<Rightarrow> dualviewer" where
  "DualViewer cfg = \<lparr>
     config = cfg,
     viewportA = None,
     viewportB = None,
     layout = cfg_layout cfg,
     syncCameras = cfg_syncCameras cfg,
     syncFields = cfg_syncFields cfg,
     isInitialized = False,
     isUpdatingCamera = False,
     messageCleanup = False,
     listening = False,
     resizeObserverA = None,
     resizeObserverB = None,
     outbox = [] \<rparr>"

text \<open>A new camera of the rendering library, with no subscriber.\<close>

definition newCamera :: camera where
  "newCamera = \<lparr> position = (0, 0, 1), focalPoint = (0, 0, 0), viewUp = (0, 1, 0),
     parallelScale = 1, onModified = [] \<rparr>"

definition createViewport :: "vpid \<Rightarrow> viewport" where
  "createViewport i = \<lparr>
     vid = i,
     camera = newCamera,
     rendererActors = [],
     renders = 0,
     eventsBound = True,
     glDeleted = False,
     rwDeleted = False,
     look = Unstyled,
     coloring = None,
     actors = [],
     polyData = None,
     filename = JNull \<rparr>"

text \<open>\<open>this.viewportA\<close> / \<open>this.viewportB\<close>, read and written by viewport.\<close>

fun vp_of :: "vpid \<Rightarrow> dualviewer \<Rightarrow> viewport option" where
  "vp_of VpA s = viewportA s"
| "vp_of VpB s = viewportB s"

fun set_vp :: "vpid \<Rightarrow> viewport \<Rightarrow> dualviewer \<Rightarrow> dualviewer" where
  "set_vp VpA v s = s\<lparr>viewportA := Some v\<rparr>"
| "set_vp VpB v s = s\<lparr>viewportB := Some v\<rparr>"

text \<open>\<open>getViewport(id)\<close>: \<open>id === 'A' ? this.viewportA : this.viewportB\<close>.\<close>

definition select :: "jsval \<Rightarrow> vpid" where
  "select i = (if i = JStr ''A'' then VpA else VpB)"

definition getViewport :: "jsval \<Rightarrow> dualviewer \<Rightarrow> viewport option" where
  "getViewport i s = (if i = JStr ''A'' then viewportA s else viewportB s)"

definition pose_of :: "camera \<Rightarrow> pose" where
  "pose_of c = (position c, focalPoint c, viewUp c, parallelScale c)"

fun with_pose :: "pose \<Rightarrow> camera \<Rightarrow> camera" where
  "with_pose (p, f, u, z) c =
     c\<lparr>position := p, focalPoint := f, viewUp := u, parallelScale := z\<rparr>"

section \<open>Camera synchronisation\<close>

text \<open>
  The setters of the target camera notify the target camera's subscribers, which are
  the synchronisation closures again, so the code is re-entrant. The camera's
  notification is therefore a parameter \<open>notify\<close> of the setter and of the closure,
  and \<open>modified\<close> ties the knot with a bound on the nesting depth: \<open>None\<close> means
  that the bound was reached.
\<close>

type_synonym outcome = "dualviewer result option"

text \<open>Sequencing: a raise or an exhausted bound ends the computation.\<close>

definition and_then :: "outcome \<Rightarrow> (dualviewer \<Rightarrow> outcome) \<Rightarrow> outcome" where
  "and_then r k = (case r of Some (Inr s) \<Rightarrow> k s | _ \<Rightarrow> r)"

text \<open>
  A camera setter of the rendering library: stores the value and notifies the
  subscribers when the value changed.
\<close>

definition setCam ::
  "(vpid \<Rightarrow> dualviewer \<Rightarrow> outcome) \<Rightarrow> env \<Rightarrow> vpid \<Rightarrow> (camera \<Rightarrow> camera) \<Rightarrow> dualviewer \<Rightarrow> outcome" where
  "setCam notify E c f s =
     (case vp_of c s of
        None \<Rightarrow> Some (Inl (TypeError, s))
      | Some v \<Rightarrow>
          (if eagerNotify E \<or> f (camera v) \<noteq> camera v
           then notify c (set_vp c (v\<lparr>camera := f (camera v)\<rparr>) s)
           else Some (Inr s)))"

text \<open>\<open>target.setX(...source.getX())\<close>: the source camera is read at each call.\<close>

definition copyField ::
  "(vpid \<Rightarrow> dualviewer \<Rightarrow> outcome) \<Rightarrow> env \<Rightarrow> vpid \<Rightarrow> vpid \<Rightarrow>
   (camera \<Rightarrow> camera \<Rightarrow> camera) \<Rightarrow> dualviewer \<Rightarrow> outcome" where
  "copyField notify E src tgt put s =
     (case vp_of src s of
        None \<Rightarrow> Some (Inl (TypeError, s))
      | Some sv \<Rightarrow> setCam notify E tgt (put (camera sv)) s)"

text \<open>\<open>targetViewport.renderWindow.render()\<close>\<close>

definition renderVp :: "vpid \<Rightarrow> dualviewer \<Rightarrow> outcome" where
  "renderVp c s =
     (case vp_of c s of
        None \<Rightarrow> Some (Inl (TypeError, s))
      | Some v \<Rightarrow> Some (Inr (set_vp c (v\<lparr>renders := Suc (renders v)\<rparr>) s)))"

definition syncCamera ::
  "(vpid \<Rightarrow> dualviewer \<Rightarrow> outcome) \<Rightarrow> env \<Rightarrow> vpid \<Rightarrow> vpid \<Rightarrow> dualviewer \<Rightarrow> outcome" where
  "syncCamera notify E src tgt s =
     (if isUpdatingCamera s then Some (Inr s)
      else
        and_then (copyField notify E src tgt (\<lambda>sc. position_update (\<lambda>_. position sc))
                    (s\<lparr>isUpdatingCamera := True\<rparr>)) (\<lambda>s1.
        and_then (copyField notify E src tgt (\<lambda>sc. focalPoint_update (\<lambda>_. focalPoint sc)) s1) (\<lambda>s2.
        and_then (copyField notify E src tgt (\<lambda>sc. viewUp_update (\<lambda>_. viewUp sc)) s2) (\<lambda>s3.
        and_then (copyField notify E src tgt (\<lambda>sc. parallelScale_update (\<lambda>_. parallelScale sc)) s3) (\<lambda>s4.
        and_then (renderVp tgt s4) (\<lambda>s5.
        Some (Inr (s5\<lparr>isUpdatingCamera := False\<rparr>))))))))"

text \<open>The subscribed callbacks run in subscription order.\<close>

fun invoke :: "(vpid \<Rightarrow> dualviewer \<Rightarrow> outcome) \<Rightarrow> env \<Rightarrow> callback list \<Rightarrow> dualviewer \<Rightarrow> outcome" where
  "invoke notify E [] s = Some (Inr s)"
| "invoke notify E (SyncCallback src tgt # cbs) s =
     and_then (if truthy (syncCameras s) then syncCamera notify E src tgt s else Some (Inr s))
       (invoke notify E cbs)"

text \<open>\<open>camera.modified()\<close> on viewport \<open>c\<close>'s camera.\<close>

fun modified :: "nat \<Rightarrow> env \<Rightarrow> vpid \<Rightarrow> dualviewer \<Rightarrow> outcome" where
  "modified 0 E c s = None"
| "modified (Suc n) E c s =
     (case vp_of c s of
        None \<Rightarrow> Some (Inl (TypeError, s))
      | Some v \<Rightarrow> invoke (modified n E) E (onModified (camera v)) s)"

text \<open>
  A pose change on viewport \<open>c\<close>'s camera, as made by the interactor: the camera takes
  the new pose and notifies its subscribers once.
\<close>

definition poseChange :: "nat \<Rightarrow> env \<Rightarrow> vpid \<Rightarrow> pose \<Rightarrow> dualviewer \<Rightarrow> outcome" where
  "poseChange n E c p s =
     (case vp_of c s of
        None \<Rightarrow> Some (Inl (TypeError, s))
      | Some v \<Rightarrow> modified n E c (set_vp c (v\<lparr>camera := with_pose p (camera v)\<rparr>) s))"

text \<open>
  \<open>_setupCameraSync\<close>: reads both cameras, then subscribes one closure to each.
\<close>

definition subscribe :: "callback \<Rightarrow> viewport \<Rightarrow> viewport" where
  "subscribe cb v = v\<lparr>camera := (camera v)\<lparr>onModified := onModified (camera v) @ [cb]\<rparr>\<rparr>"

definition setupCameraSync :: "dualviewer \<Rightarrow> dualviewer result" where
  "setupCameraSync s =
     (case viewportA s of
        None \<Rightarrow> Inl (TypeError, s)
      | Some a \<Rightarrow>
     (case viewportB s of
        None \<Rightarrow> Inl (TypeError, s)
      | Some b \<Rightarrow>
          Inr (s\<lparr>viewportA := Some (subscribe (SyncCallback VpA VpB) a),
                 viewportB := Some (subscribe (SyncCallback VpB VpA) b)\<rparr>)))"

text \<open>
  \<open>initialize\<close> has no suspension point: it runs to completion when called.
  The resize observers and the message listener are recorded as attached.
\<close>

definition initialize :: "env \<Rightarrow> dualviewer \<Rightarrow> dualviewer result" where
  "initialize E s =
     (if isInitialized s then Inr s
      else if \<not> vtkLoaded E then Inl (VtkNotLoaded, s)
      else
        (case (if truthy (syncCameras s)
               then setupCameraSync (s\<lparr>viewportA := Some (createViewport VpA),
                                        viewportB := Some (createViewport VpB)\<rparr>)
               else Inr (s\<lparr>viewportA := Some (createViewport VpA),
                            viewportB := Some (createViewport VpB)\<rparr>)) of
           Inl e \<Rightarrow> Inl e
         | Inr s1 \<Rightarrow>
             Inr (s1\<lparr>resizeObserverA := Some True, resizeObserverB := Some True,
                     messageCleanup := True, listening := True,
                     isInitialized := True\<rparr>)))"

definition setLayout :: "jsval \<Rightarrow> dualviewer \<Rightarrow> dualviewer" where
  "setLayout l s = s\<lparr>layout := l\<rparr>"

definition setCameraSync :: "jsval \<Rightarrow> dualviewer \<Rightarrow> dualviewer" where
  "setCameraSync enabled s = s\<lparr>syncCameras := enabled\<rparr>"

definition setFieldSync :: "jsval \<Rightarrow> dualviewer \<Rightarrow> dualviewer" where
  "setFieldSync enabled s = s\<lparr>syncFields := enabled\<rparr>"

text \<open>Several pose changes on the same camera, one after the other.\<close>

fun poseChanges :: "nat \<Rightarrow> env \<Rightarrow> vpid \<Rightarrow> pose list \<Rightarrow> dualviewer \<Rightarrow> outcome" where
  "poseChanges n E c [] s = Some (Inr s)"
| "poseChanges n E c (p # ps) s = and_then (poseChange n E c p s) (poseChanges n E c ps)"

section \<open>DualViewer: loading a mesh\<close>

text \<open>What the loader resolves with.\<close>

record load_result =
  res_actors :: "actor list"
  res_polyData :: "polydata option"
  res_format :: string
  res_hasTexture :: bool
  res_hasVertexColors :: bool

text \<open>
  A call of \<open>loadMesh(viewport, url)\<close> suspended at its \<open>await\<close>: the viewport
  object it selected, and its two arguments.
\<close>

record inflight =
  target :: vpid
  viewportArg :: jsval
  url :: jsval

text \<open>The renderer's actor collection.\<close>

definition removeActor :: "actor \<Rightarrow> actor list \<Rightarrow> actor list" where
  "removeActor a r = removeAll a r"

definition addActor :: "actor \<Rightarrow> actor list \<Rightarrow> actor list" where
  "addActor a r = (if a \<in> set r then r else r @ [a])"

fun message_of :: "error \<Rightarrow> string" where
  "message_of (LoadError m) = m"
| "message_of (FieldNotFoundError m) = m"
| "message_of VtkNotLoaded = ''VTK.js not loaded''"
| "message_of TypeError = ''TypeError''"

text \<open>
  The \<open>catch\<close> block of \<open>loadMesh\<close>: \<open>sendError\<close>, then the error is thrown again.
\<close>

definition caught :: "jsval \<Rightarrow> error \<Rightarrow> dualviewer \<Rightarrow> dualviewer result" where
  "caught viewport e s =
     Inl (e, s\<lparr>outbox := outbox s @ [ErrorNote (Some viewport) (message_of e)]\<rparr>)"

text \<open>\<open>loadMesh\<close> up to the \<open>await\<close>: the existing actors are cleared.\<close>

definition loadMesh_begin :: "jsval \<Rightarrow> jsval \<Rightarrow> dualviewer \<Rightarrow> dualviewer result" where
  "loadMesh_begin viewport u s =
     (case vp_of (select viewport) s of
        None \<Rightarrow> caught viewport TypeError s
      | Some v \<Rightarrow>
          Inr (set_vp (select viewport)
                 (v\<lparr>rendererActors := fold removeActor (actors v) (rendererActors v),
                    actors := []\<rparr>) s))"

text \<open>\<open>_positionCameraForViewport\<close>\<close>

definition positionCameraForViewport :: "nat \<Rightarrow> env \<Rightarrow> vpid \<Rightarrow> dualviewer \<Rightarrow> outcome" where
  "positionCameraForViewport n E c s =
     (case vp_of c s of
        None \<Rightarrow> Some (Inl (TypeError, s))
      | Some v \<Rightarrow>
          (if actors v = [] then Some (Inr s)
           else (case framing E (actors v) of
                   None \<Rightarrow> Some (Inr s)
                 | Some p \<Rightarrow> poseChange n E c p s)))"

definition defaultColor :: "jsval \<Rightarrow> dual_config \<Rightarrow> rgb" where
  "defaultColor viewport cfg =
     (if viewport = JStr ''A'' then cfg_defaultMeshColorA cfg else cfg_defaultMeshColorB cfg)"

definition configureLook :: "dual_config \<Rightarrow> jsval \<Rightarrow> load_result \<Rightarrow> look" where
  "configureLook cfg viewport r =
     (if res_hasTexture r \<and> cfg_enableTextures cfg then TextureFixes
      else if res_hasVertexColors r then VertexColors (cfg_showEdges cfg)
      else DefaultColor (defaultColor viewport cfg) (cfg_showEdges cfg))"

text \<open>\<open>loadMesh\<close> after the \<open>await\<close>, when the loader resolved with \<open>r\<close>.\<close>

definition loadMesh_resolve :: "nat \<Rightarrow> env \<Rightarrow> inflight \<Rightarrow> load_result \<Rightarrow> dualviewer \<Rightarrow> outcome" where
  "loadMesh_resolve n E l r s =
     (case vp_of (target l) s of
        None \<Rightarrow> Some (caught (viewportArg l) TypeError s)
      | Some v \<Rightarrow>
          (case and_then
                  (positionCameraForViewport n E (target l)
                     (set_vp (target l)
                        (v\<lparr>actors := res_actors r,
                           polyData := res_polyData r,
                           filename := extractFilename E (url l),
                           rendererActors := fold addActor (res_actors r) (rendererActors v),
                           look := configureLook (config s) (viewportArg l) r\<rparr>) s))
                  (renderVp (target l)) of
             None \<Rightarrow> None
           | Some (Inl (e, s1)) \<Rightarrow> Some (caught (viewportArg l) e s1)
           | Some (Inr s2) \<Rightarrow>
               (case vp_of (target l) s2 of
                  None \<Rightarrow> Some (caught (viewportArg l) TypeError s2)
                | Some v2 \<Rightarrow>
                    Some (Inr (s2\<lparr>outbox := outbox s2 @
                       [MeshLoaded (viewportArg l) (filename v2) (res_format r)
                          (res_hasTexture r) (res_hasVertexColors r)]\<rparr>)))))"

text \<open>\<open>loadMesh\<close> after the \<open>await\<close>, when the loader rejected with \<open>e\<close>.\<close>

definition loadMesh_reject :: "inflight \<Rightarrow> error \<Rightarrow> dualviewer \<Rightarrow> dualviewer result" where
  "loadMesh_reject l e s = caught (viewportArg l) e s"

section \<open>Field ranges\<close>

text \<open>The componentwise union of two ranges.\<close>

fun unionRange :: "real \<times> real \<Rightarrow> real \<times> real \<Rightarrow> real \<times> real" where
  "unionRange (a0, a1) (b0, b1) = (min a0 b0, max a1 b1)"

text \<open>The native range of the attribute named \<open>name\<close>, when the dataset has it.\<close>

fun nativeRange :: "jsval \<Rightarrow> polydata \<Rightarrow> (real \<times> real) option" where
  "nativeRange (JStr f) d = map_of d f"
| "nativeRange _ d = None"

text \<open>
  Modelled from the spec: \<open>FieldVisualization.calculateSynchronizedRange\<close> is called
  by \<open>DualViewer.applyField\<close> but \<open>FieldVisualization.js\<close> is not among the sources.
  For each dataset that has the named attribute it reads the native range; it returns
  the componentwise union, and fails with a FieldNotFoundError when no dataset has the
  attribute.
\<close>

definition calculateSynchronizedRange :: "polydata list \<Rightarrow> jsval \<Rightarrow> error + (real \<times> real)" where
  "calculateSynchronizedRange datasets fieldName =
     (case List.map_filter (nativeRange fieldName) datasets of
        [] \<Rightarrow> Inl (FieldNotFoundError ''field not found'')
      | r # rs \<Rightarrow> Inr (fold unionRange rs r))"

text \<open>\<open>options.range\<close>, with the default \<open>options = {}\<close> for \<open>undefined\<close>.\<close>

fun optionsRange :: "jsval \<Rightarrow> error + jsval" where
  "optionsRange JUndefined = Inr JUndefined"
| "optionsRange JNull = Inl TypeError"
| "optionsRange (JObj kvs) = Inr (field kvs ''range'')"
| "optionsRange _ = Inr JUndefined"

text \<open>\<open>[this.viewportA.polyData, this.viewportB.polyData].filter(Boolean)\<close>\<close>

definition loadedPolydatas :: "viewport \<Rightarrow> viewport \<Rightarrow> polydata list" where
  "loadedPolydatas a b = List.map_filter polyData [a, b]"

text \<open>
  The \<open>range\<close> handed to the field visualisation of both viewports: the one of the
  options, or the synchronised one.
\<close>

definition fieldRange :: "dualviewer \<Rightarrow> jsval \<Rightarrow> jsval \<Rightarrow> error + jsval" where
  "fieldRange s fieldName rng =
     (if truthy (syncFields s) \<and> \<not> truthy rng
      then
        (case viewportA s of
           None \<Rightarrow> Inl TypeError
         | Some a \<Rightarrow>
        (case viewportB s of
           None \<Rightarrow> Inl TypeError
         | Some b \<Rightarrow>
             (if loadedPolydatas a b \<noteq> []
              then (case calculateSynchronizedRange (loadedPolydatas a b) fieldName of
                      Inl e \<Rightarrow> Inl e
                    | Inr (lo, hi) \<Rightarrow> Inr (JArr [JNum lo, JNum hi]))
              else Inr rng)))
      else Inr rng)"

text \<open>
  Colouring one viewport by the field, when it has a dataset and an actor. What
  \<open>FieldVisualization.applyField\<close> does to the mapper is recorded as the field and the
  range it was given.
\<close>

definition colourBy :: "jsval \<Rightarrow> jsval \<Rightarrow> viewport \<Rightarrow> viewport" where
  "colourBy fieldName rng v =
     (if polyData v \<noteq> None \<and> actors v \<noteq> [] then v\<lparr>coloring := Some (fieldName, rng)\<rparr> else v)"

definition rendered :: "viewport \<Rightarrow> viewport" where
  "rendered v = v\<lparr>renders := Suc (renders v)\<rparr>"

text \<open>\<open>this.render()\<close>: both render windows, A first.\<close>

definition renderBoth :: "dualviewer \<Rightarrow> dualviewer result" where
  "renderBoth s =
     (case viewportA s of
        None \<Rightarrow> Inl (TypeError, s)
      | Some a \<Rightarrow>
     (case viewportB s of
        None \<Rightarrow> Inl (TypeError, s\<lparr>viewportA := Some (rendered a)\<rparr>)
      | Some b \<Rightarrow> Inr (s\<lparr>viewportA := Some (rendered a), viewportB := Some (rendered b)\<rparr>)))"

definition applyField :: "jsval \<Rightarrow> jsval \<Rightarrow> dualviewer \<Rightarrow> dualviewer result" where
  "applyField fieldName options s =
     (if \<not> cfg_enableFields (config s) then Inr s
      else
        (case optionsRange options of
           Inl e \<Rightarrow> Inl (e, s)
         | Inr rng \<Rightarrow>
        (case fieldRange s fieldName rng of
           Inl e \<Rightarrow> Inl (e, s)
         | Inr rng' \<Rightarrow>
        (case viewportA s of
           None \<Rightarrow> Inl (TypeError, s)
         | Some a \<Rightarrow>
        (case viewportB s of
           None \<Rightarrow> Inl (TypeError, s\<lparr>viewportA := Some (colourBy fieldName rng' a)\<rparr>)
         | Some b \<Rightarrow>
             renderBoth (s\<lparr>viewportA := Some (colourBy fieldName rng' a),
                           viewportB := Some (colourBy fieldName rng' b)\<rparr>))))))"

text \<open>
  \<open>setCameraView(direction)\<close>: the view is applied to viewport A ("will sync to B if
  enabled"), and to viewport B as well when \<open>syncCameras\<close> is off.
\<close>

definition setCameraView :: "nat \<Rightarrow> env \<Rightarrow> jsval \<Rightarrow> dualviewer \<Rightarrow> outcome" where
  "setCameraView n E direction s =
     (case viewportA s of
        None \<Rightarrow> Some (Inl (TypeError, s))
      | Some a \<Rightarrow>
     (case viewportB s of
        None \<Rightarrow> Some (Inl (TypeError, s))
      | Some b \<Rightarrow>
          (if actors a @ actors b = [] then Some (Inr s)
           else
             and_then (poseChange n E VpA (viewPose E direction (actors a @ actors b)) s) (\<lambda>s1.
             and_then (if \<not> truthy (syncCameras s1)
                       then poseChange n E VpB (viewPose E direction (actors a @ actors b)) s1
                       else Some (Inr s1)) (\<lambda>s2.
             Some (renderBoth s2))))))"

section \<open>DualViewer: teardown\<close>

text \<open>
  A \<open>delete()\<close> of the rendering library on a render window that \<open>gone\<close> says is
  deleted already: accepted or refused with a TypeError, as the library decides.
\<close>

definition release ::
  "env \<Rightarrow> (viewport \<Rightarrow> bool) \<Rightarrow> (viewport \<Rightarrow> viewport) \<Rightarrow> viewport \<Rightarrow> (error \<times> viewport) + viewport" where
  "release E gone f v = (if gone v \<and> \<not> repeatRelease E then Inl (TypeError, v) else Inr (f v))"

text \<open>
  The body of the loop for a viewport that exists: the actors are removed from the
  renderer, the interactor's events unbound, the OpenGL window and then the render
  window deleted.
\<close>

definition destroyViewport :: "env \<Rightarrow> viewport \<Rightarrow> (error \<times> viewport) + viewport" where
  "destroyViewport E v =
     (case release E glDeleted (glDeleted_update (\<lambda>_. True))
             (v\<lparr>rendererActors := fold removeActor (actors v) (rendererActors v),
                eventsBound := False\<rparr>) of
        Inl e \<Rightarrow> Inl e
      | Inr v2 \<Rightarrow> release E rwDeleted (rwDeleted_update (\<lambda>_. True)) v2)"

text \<open>\<open>observer.disconnect()\<close> when the observer exists.\<close>

definition disconnect :: "bool option \<Rightarrow> bool option" where
  "disconnect ob = (case ob of None \<Rightarrow> None | Some _ \<Rightarrow> Some False)"

text \<open>The loop body of \<open>destroy\<close> for one entry of \<open>[viewportA, viewportB]\<close>.\<close>

definition destroyEntry :: "env \<Rightarrow> vpid \<Rightarrow> dualviewer \<Rightarrow> dualviewer result" where
  "destroyEntry E c s =
     (case vp_of c s of
        None \<Rightarrow> Inr s
      | Some v \<Rightarrow>
          (case destroyViewport E v of
             Inl (e, v') \<Rightarrow> Inl (e, set_vp c v' s)
           | Inr v' \<Rightarrow> Inr (set_vp c v' s)))"

definition destroy :: "env \<Rightarrow> dualviewer \<Rightarrow> dualviewer result" where
  "destroy E s =
     (case destroyEntry E VpA
             (s\<lparr>listening := (if messageCleanup s then False else listening s),
                resizeObserverA := disconnect (resizeObserverA s),
                resizeObserverB := disconnect (resizeObserverB s)\<rparr>) of
        Inl e \<Rightarrow> Inl e
      | Inr s1 \<Rightarrow> destroyEntry E VpB s1)"

text \<open>
  The viewports the controller still refers to although their render window has been
  deleted.
\<close>

definition dangling :: "dualviewer \<Rightarrow> vpid list" where
  "dangling s = filter (\<lambda>c. case vp_of c s of None \<Rightarrow> False | Some v \<Rightarrow> rwDeleted v) [VpA, VpB]"

section \<open>DualViewer: the event loop\<close>

text \<open>
  The viewer together with what the single-threaded event loop holds for it: the
  \<open>loadMesh\<close> calls suspended at their \<open>await\<close>, the screenshot captures under
  way, and the errors nobody caught (an exception leaving an event callback, the
  rejection of a promise that the message listener dropped).
\<close>

record dualsys =
  viewer :: dualviewer
  pending :: "inflight list"
  captures :: nat
  uncaught :: "error list"

definition settle :: "dualsys \<Rightarrow> dualviewer result \<Rightarrow> dualsys" where
  "settle sys r =
     (case r of
        Inl (e, s) \<Rightarrow> sys\<lparr>viewer := s, uncaught := uncaught sys @ [e]\<rparr>
      | Inr s \<Rightarrow> sys\<lparr>viewer := s\<rparr>)"

text \<open>A call \<open>this.loadMesh(viewport, url)\<close> whose promise is not awaited.\<close>

definition callLoadMesh :: "jsval \<Rightarrow> jsval \<Rightarrow> dualsys \<Rightarrow> dualsys" where
  "callLoadMesh viewport u sys =
     (case loadMesh_begin viewport u (viewer sys) of
        Inl (e, s) \<Rightarrow> sys\<lparr>viewer := s, uncaught := uncaught sys @ [e]\<rparr>
      | Inr s \<Rightarrow>
          sys\<lparr>viewer := s,
              pending := pending sys @
                [\<lparr>target = select viewport, viewportArg = viewport, url = u\<rparr>]\<rparr>)"

text \<open>\<open>captureScreenshot\<close> up to its \<open>await\<close>.\<close>

definition captureScreenshot :: "dualsys \<Rightarrow> dualsys" where
  "captureScreenshot sys =
     (if viewportA (viewer sys) = None \<or> viewportB (viewer sys) = None
      then sys\<lparr>uncaught := uncaught sys @ [TypeError]\<rparr>
      else sys\<lparr>captures := Suc (captures sys)\<rparr>)"

text \<open>The callback given to \<open>createMessageListener\<close> by \<open>_setupMessageListener\<close>.\<close>

definition onMessage :: "message \<Rightarrow> dualsys \<Rightarrow> dualsys" where
  "onMessage data sys =
     (if field data ''type'' = JStr ''loadMeshA'' then
        callLoadMesh (JStr ''A'') (field data ''url'') sys
      else if field data ''type'' = JStr ''loadMeshB'' then
        callLoadMesh (JStr ''B'') (field data ''url'') sys
      else if field data ''type'' = JStr ''loadMesh'' then
        (if truthy (field data ''viewport'')
         then callLoadMesh (field data ''viewport'') (field data ''url'') sys
         else callLoadMesh (JStr ''A'') (field data ''url'') sys)
      else if field data ''type'' = JStr ''setLayout'' then
        sys\<lparr>viewer := setLayout (field data ''layout'') (viewer sys)\<rparr>
      else if field data ''type'' = JStr ''setCameraSync'' then
        sys\<lparr>viewer := setCameraSync (field data ''enabled'') (viewer sys)\<rparr>
      else if field data ''type'' = JStr ''setField'' then
        settle sys (applyField (field data ''field'') (field data ''options'') (viewer sys))
      else if field data ''type'' = JStr ''screenshot'' then
        captureScreenshot sys
      else sys)"

datatype event =
    Message message
  | Resolved nat load_result
  | Rejected nat error
  | PoseChanged vpid pose
  | Captured

text \<open>The list without its \<open>k\<close>-th element.\<close>

definition without :: "nat \<Rightarrow> 'a list \<Rightarrow> 'a list" where
  "without k xs = take k xs @ drop (Suc k) xs"

text \<open>
  One turn of the event loop. \<open>Resolved k r\<close> and \<open>Rejected k e\<close> are the loader's
  answers to the \<open>k\<close>-th suspended call; an answer to no suspended call is no event.
  A fetch or parse failure rejects before the loader has touched the renderer (the GLTF
  loader imports its actors only after parsing has completed), so a rejection changes
  nothing but what the \<open>catch\<close> block does.
\<close>

fun step :: "nat \<Rightarrow> env \<Rightarrow> event \<Rightarrow> dualsys \<Rightarrow> dualsys option" where
  "step n E (Message data) sys = Some (onMessage data sys)"
| "step n E (Resolved k r) sys =
     (if k < length (pending sys)
      then map_option (settle (sys\<lparr>pending := without k (pending sys)\<rparr>))
             (loadMesh_resolve n E (pending sys ! k) r (viewer sys))
      else Some sys)"
| "step n E (Rejected k e) sys =
     (if k < length (pending sys)
      then Some (settle (sys\<lparr>pending := without k (pending sys)\<rparr>)
                   (loadMesh_reject (pending sys ! k) e (viewer sys)))
      else Some sys)"
| "step n E (PoseChanged c p) sys = map_option (settle sys) (poseChange n E c p (viewer sys))"
| "step n E Captured sys =
     Some (if captures sys = 0 then sys
           else sys\<lparr>captures := captures sys - 1,
                    viewer := (viewer sys)\<lparr>outbox := outbox (viewer sys) @ [ScreenshotNote]\<rparr>\<rparr>)"

fun run :: "nat \<Rightarrow> env \<Rightarrow> event list \<Rightarrow> dualsys \<Rightarrow> dualsys option" where
  "run n E [] sys = Some sys"
| "run n E (ev # evs) sys =
     (case step n E ev sys of None \<Rightarrow> None | Some sys' \<Rightarrow> run n E evs sys')"

text \<open>What a viewport displays: its actors, its dataset and its file name.\<close>

definition dataset_of :: "viewport \<Rightarrow> actor list \<times> polydata option \<times> jsval" where
  "dataset_of v = (actors v, polyData v, filename v)"

definition shown :: "vpid \<Rightarrow> dualsys \<Rightarrow> (actor list \<times> polydata option \<times> jsval) option" where
  "shown c sys = map_option dataset_of (vp_of c (viewer sys))"


definition shownAfter :: "vpid \<Rightarrow> dualsys option \<Rightarrow> (actor list \<times> polydata option \<times> jsval) option" where
  "shownAfter c r = (case r of None \<Rightarrow> None | Some sys \<Rightarrow> shown c sys)"

section \<open>BaseViewer and StandardViewer\<close>

record base_config =
  bc_defaultMeshColor :: rgb
  bc_showEdges :: bool
  bc_enableFields :: bool
  bc_enableTextures :: bool
  bc_enableScreenshot :: bool
  bc_enableAxisIndicator :: bool
  bc_showLoadingOverlay :: bool
  bc_showInfoOverlay :: bool

definition STANDARD_CONFIG :: base_config where
  "STANDARD_CONFIG = \<lparr>
     bc_defaultMeshColor = (6/10, 8/10, 1),
     bc_showEdges = False,
     bc_enableFields = True,
     bc_enableTextures = False,
     bc_enableScreenshot = True,
     bc_enableAxisIndicator = False,
     bc_showLoadingOverlay = True,
     bc_showInfoOverlay = True \<rparr>"

text \<open>
  What \<open>initialize\<close> creates: the objects of \<open>_createRenderingPipeline\<close> (render
  window, renderer, interactor, OpenGL window, assigned together), the actor manager,
  and the feature modules that the configuration enables.
\<close>

record pipeline =
  pl_actors :: "actor list"
  pl_renders :: nat
  pl_eventsBound :: bool
  pl_glDeleted :: bool
  pl_rwDeleted :: bool
  pl_camera :: pose
  pl_look :: look
  pl_coloring :: "(jsval \<times> jsval \<times> jsval) option"
  pl_axisIndicator :: "bool option"
  pl_screenshotCapture :: bool
  pl_fieldVisualization :: bool
  pl_textureManager :: bool

text \<open>A DOM overlay: whether it is in the document, whether it is displayed, its text.\<close>

record overlay =
  attached :: bool
  displayed :: bool
  content :: "(jsval \<times> bool \<times> bool) option"

record baseviewer =
  b_config :: base_config
  b_pipeline :: "pipeline option"
  b_actors :: "actor list"
  b_polyDatas :: "polydata list"
  b_currentFilename :: jsval
  b_isInitialized :: bool
  b_loadingOverlay :: "overlay option"
  b_infoOverlay :: "overlay option"
  b_messageCleanup :: bool
  b_listening :: bool
  b_resizeObserver :: "bool option"
  b_outbox :: "notification list"
  currentField :: jsval
  currentColormap :: jsval
  availableFields :: "(string \<times> (real \<times> real)) list"

definition StandardViewer :: "base_config \<Rightarrow> baseviewer" where
  "StandardViewer cfg = \<lparr>
     b_config = cfg,
     b_pipeline = None,
     b_actors = [],
     b_polyDatas = [],
     b_currentFilename = JNull,
     b_isInitialized = False,
     b_loadingOverlay = None,
     b_infoOverlay = None,
     b_messageCleanup = False,
     b_listening = False,
     b_resizeObserver = None,
     b_outbox = [],
     currentField = JNull,
     currentColormap = JStr ''erdc_rainbow_bright'',
     availableFields = [] \<rparr>"

definition newPipeline :: "base_config \<Rightarrow> pipeline" where
  "newPipeline cfg = \<lparr>
     pl_actors = [],
     pl_renders = 0,
     pl_eventsBound = True,
     pl_glDeleted = False,
     pl_rwDeleted = False,
     pl_camera = pose_of newCamera,
     pl_look = Unstyled,
     pl_coloring = None,
     pl_axisIndicator = (if bc_enableAxisIndicator cfg then Some True else None),
     pl_screenshotCapture = bc_enableScreenshot cfg,
     pl_fieldVisualization = bc_enableFields cfg,
     pl_textureManager = bc_enableTextures cfg \<rparr>"

definition b_initialize :: "env \<Rightarrow> baseviewer \<Rightarrow> baseviewer result" where
  "b_initialize E s =
     (if b_isInitialized s then Inr s
      else if \<not> vtkLoaded E then Inl (VtkNotLoaded, s)
      else Inr (s\<lparr>
        b_pipeline := Some (newPipeline (b_config s)),
        b_loadingOverlay := (if bc_showLoadingOverlay (b_config s)
           then Some \<lparr>attached = True, displayed = True, content = None\<rparr> else None),
        b_infoOverlay := (if bc_showInfoOverlay (b_config s)
           then Some \<lparr>attached = True, displayed = True, content = None\<rparr> else None),
        b_resizeObserver := Some True,
        b_messageCleanup := True,
        b_listening := True,
        b_isInitialized := True\<rparr>))"

text \<open>\<open>this.fieldVisualization\<close> is set.\<close>

definition hasFieldVisualization :: "baseviewer \<Rightarrow> bool" where
  "hasFieldVisualization s =
     (case b_pipeline s of None \<Rightarrow> False | Some pl \<Rightarrow> pl_fieldVisualization pl)"

text \<open>\<open>showLoading(show)\<close>\<close>

definition showLoading :: "bool \<Rightarrow> baseviewer \<Rightarrow> baseviewer" where
  "showLoading b s =
     s\<lparr>b_loadingOverlay := map_option (displayed_update (\<lambda>_. b)) (b_loadingOverlay s)\<rparr>"

text \<open>
  \<open>clearScene\<close>: \<open>this.renderer\<close> is dereferenced once per actor, so a viewer without
  a pipeline and without actors clears without a raise.
\<close>

definition clearScene :: "baseviewer \<Rightarrow> baseviewer result" where
  "clearScene s =
     (case b_pipeline s of
        None \<Rightarrow>
          (if b_actors s = [] then Inr (s\<lparr>b_actors := [], b_polyDatas := []\<rparr>)
           else Inl (TypeError, s))
      | Some pl \<Rightarrow>
          Inr (s\<lparr>b_pipeline := Some (pl\<lparr>pl_actors := fold removeActor (b_actors s) (pl_actors pl)\<rparr>),
                 b_actors := [], b_polyDatas := []\<rparr>))"

text \<open>The \<open>catch\<close> block of \<open>BaseViewer.loadMesh\<close>.\<close>

definition b_caught :: "error \<Rightarrow> baseviewer \<Rightarrow> baseviewer result" where
  "b_caught e s =
     Inl (e, (showLoading False s)\<lparr>b_outbox := b_outbox s @ [ErrorNote None (message_of e)]\<rparr>)"

definition b_loadMesh_begin :: "baseviewer \<Rightarrow> baseviewer result" where
  "b_loadMesh_begin s =
     (case clearScene (showLoading True s) of
        Inl (e, s1) \<Rightarrow> b_caught e s1
      | Inr s1 \<Rightarrow> Inr s1)"










text \<open>
  \<open>StandardViewer.applyField\<close>, \<open>setColormap\<close> and \<open>clearField\<close>. What
  \<open>FieldVisualization\<close> does to the mapper is recorded as the field, the colormap and
  the range it was given.
\<close>

definition s_applyField :: "jsval \<Rightarrow> jsval \<Rightarrow> jsval \<Rightarrow> baseviewer \<Rightarrow> baseviewer" where
  "s_applyField fieldName colormap rng s =
     (if \<not> hasFieldVisualization s \<or> b_polyDatas s = [] then s
      else if b_actors s = [] then s
      else
        s\<lparr>b_pipeline :=
            map_option (\<lambda>pl. pl\<lparr>pl_coloring :=
               Some (fieldName, (if truthy colormap then colormap else currentColormap s), rng),
               pl_renders := Suc (pl_renders pl)\<rparr>) (b_pipeline s),
          currentField := fieldName,
          currentColormap := (if truthy colormap then colormap else currentColormap s)\<rparr>)"

definition setColormap :: "jsval \<Rightarrow> baseviewer \<Rightarrow> baseviewer" where
  "setColormap colormap s =
     (if truthy (currentField s)
      then s_applyField (currentField s) colormap JUndefined (s\<lparr>currentColormap := colormap\<rparr>)
      else s\<lparr>currentColormap := colormap\<rparr>)"

definition clearField :: "baseviewer \<Rightarrow> baseviewer" where
  "clearField s =
     (if b_actors s \<noteq> [] \<and> hasFieldVisualization s
      then s\<lparr>b_pipeline :=
              map_option (\<lambda>pl. pl\<lparr>pl_coloring := None, pl_renders := Suc (pl_renders pl)\<rparr>)
                (b_pipeline s),
             currentField := JNull\<rparr>
      else s\<lparr>currentField := JNull\<rparr>)"

text \<open>\<open>BaseViewer.destroy\<close>\<close>

definition releasePl ::
  "env \<Rightarrow> (pipeline \<Rightarrow> bool) \<Rightarrow> (pipeline \<Rightarrow> pipeline) \<Rightarrow> pipeline \<Rightarrow> (error \<times> pipeline) + pipeline" where
  "releasePl E gone f pl = (if gone pl \<and> \<not> repeatRelease E then Inl (TypeError, pl) else Inr (f pl))"

definition destroyPipeline :: "env \<Rightarrow> pipeline \<Rightarrow> (error \<times> pipeline) + pipeline" where
  "destroyPipeline E pl =
     (case releasePl E pl_glDeleted (pl_glDeleted_update (\<lambda>_. True))
             (pl\<lparr>pl_eventsBound := False\<rparr>) of
        Inl e \<Rightarrow> Inl e
      | Inr pl2 \<Rightarrow> releasePl E pl_rwDeleted (pl_rwDeleted_update (\<lambda>_. True)) pl2)"

text \<open>
  \<open>parent.removeChild(overlay)\<close>, guarded by \<open>overlay && overlay.parentElement\<close>.
\<close>

definition detach :: "overlay option \<Rightarrow> overlay option" where
  "detach ov = map_option (attached_update (\<lambda>_. False)) ov"

definition b_destroy :: "env \<Rightarrow> baseviewer \<Rightarrow> baseviewer result" where
  "b_destroy E s =
     (case b_pipeline s of
        None \<Rightarrow>
          (case clearScene
                  (s\<lparr>b_listening := (if b_messageCleanup s then False else b_listening s),
                     b_resizeObserver := disconnect (b_resizeObserver s)\<rparr>) of
             Inl e \<Rightarrow> Inl e
           | Inr s1 \<Rightarrow>
               Inr (s1\<lparr>b_loadingOverlay := detach (b_loadingOverlay s1),
                       b_infoOverlay := detach (b_infoOverlay s1)\<rparr>))
      | Some pl \<Rightarrow>
          (case destroyPipeline E
                  (pl\<lparr>pl_axisIndicator := map_option (\<lambda>_. False) (pl_axisIndicator pl),
                      pl_actors := fold removeActor (b_actors s) (pl_actors pl)\<rparr>) of
             Inl (e, pl') \<Rightarrow>
               Inl (e, s\<lparr>b_listening := (if b_messageCleanup s then False else b_listening s),
                         b_resizeObserver := disconnect (b_resizeObserver s),
                         b_pipeline := Some pl', b_actors := [], b_polyDatas := []\<rparr>)
           | Inr pl' \<Rightarrow>
               Inr (s\<lparr>b_listening := (if b_messageCleanup s then False else b_listening s),
                      b_resizeObserver := disconnect (b_resizeObserver s),
                      b_pipeline := Some pl', b_actors := [], b_polyDatas := [],
                      b_loadingOverlay := detach (b_loadingOverlay s),
                      b_infoOverlay := detach (b_infoOverlay s)\<rparr>)))"

text \<open>
  The rendering objects the viewer still refers to although its render window has been
  deleted.
\<close>

definition b_dangling :: "baseviewer \<Rightarrow> bool" where
  "b_dangling s = (case b_pipeline s of None \<Rightarrow> False | Some pl \<Rightarrow> pl_rwDeleted pl)"

text \<open>The StandardViewer with its suspended loads, captures and uncaught errors.\<close>

record stdsys =
  sviewer :: baseviewer
  spending :: "jsval list"
  scaptures :: nat
  suncaught :: "error list"


definition s_callLoadMesh :: "jsval \<Rightarrow> stdsys \<Rightarrow> stdsys" where
  "s_callLoadMesh u sys =
     (case b_loadMesh_begin (sviewer sys) of
        Inl (e, s) \<Rightarrow> sys\<lparr>sviewer := s, suncaught := suncaught sys @ [e]\<rparr>
      | Inr s \<Rightarrow> sys\<lparr>sviewer := s, spending := spending sys @ [u]\<rparr>)"

text \<open>The listener of \<open>BaseViewer._setupMessageListener\<close>.\<close>

definition b_onMessage :: "message \<Rightarrow> stdsys \<Rightarrow> stdsys" where
  "b_onMessage data sys =
     (if field data ''type'' = JStr ''loadMesh'' \<and> truthy (field data ''url'') then
        s_callLoadMesh (field data ''url'') sys
      else if field data ''type'' = JStr ''screenshot'' then
        (case b_pipeline (sviewer sys) of
           None \<Rightarrow> sys
         | Some pl \<Rightarrow>
             (if pl_screenshotCapture pl then sys\<lparr>scaptures := Suc (scaptures sys)\<rparr> else sys))
      else sys)"

text \<open>The second listener, added by \<open>StandardViewer._setupMessageListener\<close>.\<close>

definition s_onMessage :: "message \<Rightarrow> stdsys \<Rightarrow> stdsys" where
  "s_onMessage data sys =
     (if \<not> truthy (field data ''type'') then sys
      else if field data ''type'' = JStr ''setField'' then
        sys\<lparr>sviewer := s_applyField (field data ''field'') (field data ''colormap'')
                           (field data ''range'') (sviewer sys)\<rparr>
      else if field data ''type'' = JStr ''setColormap'' then
        sys\<lparr>sviewer := setColormap (field data ''colormap'') (sviewer sys)\<rparr>
      else if field data ''type'' = JStr ''clearField'' then
        sys\<lparr>sviewer := clearField (sviewer sys)\<rparr>
      else sys)"

text \<open>A message reaches both listeners, in the order of their registration.\<close>

definition standardOnMessage :: "message \<Rightarrow> stdsys \<Rightarrow> stdsys" where
  "standardOnMessage data sys = s_onMessage data (b_onMessage data sys)"



section \<open>Observations\<close>

text \<open>
  A viewport with its camera pose and its render count blanked out, and a viewer with
  both viewports blanked and the guard lowered: what is left is everything that
  camera synchronisation has no business touching.
\<close>

definition blank :: "viewport \<Rightarrow> viewport" where
  "blank v = v\<lparr>camera := with_pose ((0, 0, 0), (0, 0, 0), (0, 0, 0), 0) (camera v), renders := 0\<rparr>"

definition strip :: "dualviewer \<Rightarrow> dualviewer" where
  "strip s = s\<lparr>viewportA := map_option blank (viewportA s),
               viewportB := map_option blank (viewportB s),
               isUpdatingCamera := False\<rparr>"

text \<open>Both viewports have been created.\<close>

definition both :: "dualviewer \<Rightarrow> bool" where
  "both s = (viewportA s \<noteq> None \<and> viewportB s \<noteq> None)"

text \<open>The state a computation completed with, if it completed.\<close>

definition finished :: "outcome \<Rightarrow> dualviewer option" where
  "finished r = (case r of Some (Inr s) \<Rightarrow> Some s | _ \<Rightarrow> None)"

definition cameraPose :: "vpid \<Rightarrow> dualviewer \<Rightarrow> pose option" where
  "cameraPose c s = map_option (\<lambda>v. pose_of (camera v)) (vp_of c s)"

definition poseAfter :: "vpid \<Rightarrow> outcome \<Rightarrow> pose option" where
  "poseAfter c r = (case finished r of None \<Rightarrow> None | Some s \<Rightarrow> cameraPose c s)"



text \<open>\<open>destroy()\<close> called twice.\<close>

definition destroyTwice :: "env \<Rightarrow> dualviewer \<Rightarrow> dualviewer result" where
  "destroyTwice E s = (case destroy E s of Inl e \<Rightarrow> Inl e | Inr s1 \<Rightarrow> destroy E s1)"

definition b_destroyTwice :: "env \<Rightarrow> baseviewer \<Rightarrow> baseviewer result" where
  "b_destroyTwice E s = (case b_destroy E s of Inl e \<Rightarrow> Inl e | Inr s1 \<Rightarrow> b_destroy E s1)"

text \<open>The state a call left behind, raised or not.\<close>

fun state_of :: "'s result \<Rightarrow> 's" where
  "state_of (Inl (e, s)) = s"
| "state_of (Inr s) = s"

fun raised :: "'s result \<Rightarrow> bool" where
  "raised (Inl e) = True"
| "raised (Inr s) = False"

text \<open>The message types that the two message listeners have a case for.\<close>

definition dualTypes :: "jsval set" where
  "dualTypes = JStr ` {''loadMeshA'', ''loadMeshB'', ''loadMesh'', ''setLayout'',
     ''setCameraSync'', ''setField'', ''screenshot''}"

definition standardTypes :: "jsval set" where
  "standardTypes = JStr ` {''loadMesh'', ''screenshot'', ''setField'', ''setColormap'',
     ''clearField''}"

section \<open>Concrete viewers\<close>

text \<open>
  The collaborators as they behave on the inputs used below: the library is loaded,
  setters notify on change only, a second \<open>delete()\<close> is refused, and the file name of
  a bare file name is that name.
\<close>

definition demoEnv :: env where
  "demoEnv = \<lparr>vtkLoaded = True, eagerNotify = False, repeatRelease = False,
     extractFilename = (\<lambda>u. u),
     framing = (\<lambda>acts. Some ((0, 0, 5), (0, 0, 0), (0, 1, 0), 1)),
     viewPose = (\<lambda>direction acts. ((9, 0, 0), (0, 0, 0), (0, 0, 1), 1))\<rparr>"

text \<open>A DualViewer with the default configuration, initialised.\<close>

definition demoViewer :: dualviewer where
  "demoViewer = state_of (initialize demoEnv (DualViewer DUAL_CONFIG))"

text \<open>A DualViewer constructed with \<open>syncCameras: false\<close>, initialised.\<close>

definition unsyncedViewer :: dualviewer where
  "unsyncedViewer =
     state_of (initialize demoEnv (DualViewer (DUAL_CONFIG\<lparr>cfg_syncCameras := JBool False\<rparr>)))"

definition demoSys :: dualsys where
  "demoSys = \<lparr>viewer = demoViewer, pending = [], captures = 0, uncaught = []\<rparr>"

definition demoPose :: pose where
  "demoPose = ((3, 4, 5), (1, 0, 0), (0, 0, 1), 2)"

definition mesh1 :: load_result where
  "mesh1 = \<lparr>res_actors = [1], res_polyData = Some [(''height'', (0, 10))],
     res_format = ''obj'', res_hasTexture = False, res_hasVertexColors = False\<rparr>"

definition mesh2 :: load_result where
  "mesh2 = \<lparr>res_actors = [2], res_polyData = Some [(''height'', (5, 20))],
     res_format = ''obj'', res_hasTexture = False, res_hasVertexColors = False\<rparr>"

text \<open>A StandardViewer with the standard configuration, initialised.\<close>

definition demoStandard :: baseviewer where
  "demoStandard = state_of (b_initialize demoEnv (StandardViewer STANDARD_CONFIG))"

definition demoStdSys :: stdsys where
  "demoStdSys = \<lparr>sviewer = demoStandard, spending = [], scaptures = 0, suncaught = []\<rparr>"

section \<open>Properties\<close>

subsection \<open>Viewport access and the reentrancy guard\<close>

lemma vp_of_set_vp: "vp_of c (set_vp c' v s) = (if c = c' then Some v else vp_of c s)"
  by (cases c; cases c'; simp)

lemma guard_set_vp: "isUpdatingCamera (set_vp c v s) = isUpdatingCamera s"
  by (cases c; simp)

lemma set_vp_same: "vp_of c s = Some v \<Longrightarrow> set_vp c v s = s"
  by (cases c; simp)

lemma set_vp_twice: "set_vp c v (set_vp c w s) = set_vp c v s"
  by (cases c; simp)

lemma set_vp_guard_swap: "(set_vp c v s)\<lparr>isUpdatingCamera := g\<rparr> = set_vp c v (s\<lparr>isUpdatingCamera := g\<rparr>)"
  by (cases c; simp)

lemma vp_of_guard: "vp_of c (s\<lparr>isUpdatingCamera := g\<rparr>) = vp_of c s"
  by (cases c; simp)

lemma and_then_Inr: "and_then (Some (Inr s)) k = k s"
  by (simp add: and_then_def)

lemma invoke_guarded: "isUpdatingCamera s \<Longrightarrow> invoke notify E cbs s = Some (Inr s)"
proof (induction cbs)
  case Nil
  show ?case by simp
next
  case (Cons cb cbs)
  then show ?case by (cases cb) (simp add: syncCamera_def and_then_def)
qed

lemma invoke_disabled: "\<not> truthy (syncCameras s) \<Longrightarrow> invoke notify E cbs s = Some (Inr s)"
proof (induction cbs)
  case Nil
  show ?case by simp
next
  case (Cons cb cbs)
  then show ?case by (cases cb) (simp add: and_then_def)
qed

declare modified.simps [simp del]

lemma modified_guarded:
  "isUpdatingCamera s \<Longrightarrow> vp_of c s = Some v \<Longrightarrow> modified (Suc n) E c s = Some (Inr s)"
  by (simp add: invoke_guarded modified.simps)

lemma copyField_guarded:
  assumes "isUpdatingCamera s" "vp_of src s = Some sv" "vp_of tgt s = Some tv"
  shows "copyField (modified (Suc n) E) E src tgt put s =
         Some (Inr (set_vp tgt (tv\<lparr>camera := put (camera sv) (camera tv)\<rparr>) s))"
proof (cases "eagerNotify E \<or> put (camera sv) (camera tv) \<noteq> camera tv")
  case True
  have "modified (Suc n) E tgt (set_vp tgt (tv\<lparr>camera := put (camera sv) (camera tv)\<rparr>) s)
        = Some (Inr (set_vp tgt (tv\<lparr>camera := put (camera sv) (camera tv)\<rparr>) s))"
    by (rule modified_guarded) (simp_all add: guard_set_vp vp_of_set_vp assms)
  with True assms show ?thesis
    by (simp add: copyField_def setCam_def)
next
  case False
  hence "set_vp tgt (tv\<lparr>camera := put (camera sv) (camera tv)\<rparr>) s = s"
    using assms(3) by (simp add: set_vp_same)
  with False assms show ?thesis
    by (simp add: copyField_def setCam_def)
qed

text \<open>
  Camera synchronisation completes within two levels of nesting and changes nothing
  but camera poses, render counts and the guard: the stripped viewer is invariant.
\<close>

lemma strip_guard: "strip (s\<lparr>isUpdatingCamera := g\<rparr>) = strip s"
  by (simp add: strip_def)

lemma strip_set_vp:
  "vp_of c s = Some v \<Longrightarrow> blank v' = blank v \<Longrightarrow> strip (set_vp c v' s) = strip s"
  by (cases c) (simp_all add: strip_def)

lemma strip_exists: "strip s' = strip s \<Longrightarrow> (vp_of c s' = None) = (vp_of c s = None)"
proof -
  assume h: "strip s' = strip s"
  have "viewportA (strip s') = viewportA (strip s)" "viewportB (strip s') = viewportB (strip s)"
    using h by simp_all
  hence "map_option blank (viewportA s') = map_option blank (viewportA s)"
        "map_option blank (viewportB s') = map_option blank (viewportB s)"
    by (simp_all add: strip_def)
  thus ?thesis
    by (cases c) (metis vp_of.simps(1) option.map_disc_iff, metis vp_of.simps(2) option.map_disc_iff)
qed

lemma both_vp: "both s \<Longrightarrow> \<exists>v. vp_of c s = Some v"
  by (cases c) (auto simp: both_def)

lemma strip_both: "strip s' = strip s \<Longrightarrow> both s' = both s"
  using strip_exists [of s' s VpA] strip_exists [of s' s VpB] by (simp add: both_def)

lemma copyField_step:
  assumes "isUpdatingCamera s" "both s" "\<And>sc c q. with_pose q (put sc c) = with_pose q c"
  shows "\<exists>s'. copyField (modified (Suc n) E) E src tgt put s = Some (Inr s') \<and>
              strip s' = strip s \<and> isUpdatingCamera s'"
proof -
  obtain sv tv where sv: "vp_of src s = Some sv" and tv: "vp_of tgt s = Some tv"
    using both_vp [OF assms(2)] by blast
  have "blank (tv\<lparr>camera := put (camera sv) (camera tv)\<rparr>) = blank tv"
    using assms(3) [where q = "((0, 0, 0), (0, 0, 0), (0, 0, 0), 0)"] by (simp add: blank_def)
  thus ?thesis
    using copyField_guarded [OF assms(1) sv tv, of n E put] assms(1) tv
    by (simp add: strip_set_vp guard_set_vp)
qed


lemma renderVp_step:
  assumes "both s"
  shows "\<exists>s'. renderVp c s = Some (Inr s') \<and> strip s' = strip s \<and>
              isUpdatingCamera s' = isUpdatingCamera s"
proof -
  obtain v where v: "vp_of c s = Some v"
    using both_vp [OF assms] by blast
  have "blank (v\<lparr>renders := Suc (renders v)\<rparr>) = blank v"
    by (simp add: blank_def)
  thus ?thesis
    using v by (simp add: renderVp_def strip_set_vp guard_set_vp)
qed

lemma pose_only:
  "with_pose q (position_update (\<lambda>_. x) c) = with_pose q c"
  "with_pose q (focalPoint_update (\<lambda>_. x) c) = with_pose q c"
  "with_pose q (viewUp_update (\<lambda>_. x) c) = with_pose q c"
  "with_pose q (parallelScale_update (\<lambda>_. z) c) = with_pose q c"
  by (cases q; simp)+

lemma syncCamera_completes:
  assumes "both s"
  shows "\<exists>s'. syncCamera (modified (Suc n) E) E src tgt s = Some (Inr s') \<and>
              strip s' = strip s \<and> isUpdatingCamera s' = isUpdatingCamera s"
proof (cases "isUpdatingCamera s")
  case True
  thus ?thesis by (simp add: syncCamera_def)
next
  case False
  let ?N = "modified (Suc n) E"
  let ?s0 = "s\<lparr>isUpdatingCamera := True\<rparr>"
  have b0: "both ?s0" "isUpdatingCamera ?s0" "strip ?s0 = strip s"
    using assms by (simp_all add: both_def strip_guard)
  obtain s1 where s1: "copyField ?N E src tgt (\<lambda>sc. position_update (\<lambda>_. position sc)) ?s0 = Some (Inr s1)"
      "strip s1 = strip ?s0" "isUpdatingCamera s1"
    using copyField_step [where put = "\<lambda>sc. position_update (\<lambda>_. position sc)" and n = n and E = E
        and src = src and tgt = tgt, OF b0(2) b0(1) pose_only(1)] by blast
  have b1: "both s1" using s1(2) b0(1) strip_both by blast
  obtain s2 where s2: "copyField ?N E src tgt (\<lambda>sc. focalPoint_update (\<lambda>_. focalPoint sc)) s1 = Some (Inr s2)"
      "strip s2 = strip s1" "isUpdatingCamera s2"
    using copyField_step [where put = "\<lambda>sc. focalPoint_update (\<lambda>_. focalPoint sc)" and n = n and E = E
        and src = src and tgt = tgt, OF s1(3) b1 pose_only(2)] by blast
  have b2: "both s2" using s2(2) b1 strip_both by blast
  obtain s3 where s3: "copyField ?N E src tgt (\<lambda>sc. viewUp_update (\<lambda>_. viewUp sc)) s2 = Some (Inr s3)"
      "strip s3 = strip s2" "isUpdatingCamera s3"
    using copyField_step [where put = "\<lambda>sc. viewUp_update (\<lambda>_. viewUp sc)" and n = n and E = E
        and src = src and tgt = tgt, OF s2(3) b2 pose_only(3)] by blast
  have b3: "both s3" using s3(2) b2 strip_both by blast
  obtain s4 where s4: "copyField ?N E src tgt (\<lambda>sc. parallelScale_update (\<lambda>_. parallelScale sc)) s3 = Some (Inr s4)"
      "strip s4 = strip s3" "isUpdatingCamera s4"
    using copyField_step [where put = "\<lambda>sc. parallelScale_update (\<lambda>_. parallelScale sc)" and n = n and E = E
        and src = src and tgt = tgt, OF s3(3) b3 pose_only(4)] by blast
  have b4: "both s4" using s4(2) b3 strip_both by blast
  obtain s5 where s5: "renderVp tgt s4 = Some (Inr s5)" "strip s5 = strip s4"
    using renderVp_step [OF b4] by blast
  have "syncCamera ?N E src tgt s = Some (Inr (s5\<lparr>isUpdatingCamera := False\<rparr>))"
    using False by (simp add: syncCamera_def s1(1) s2(1) s3(1) s4(1) s5(1) and_then_Inr)
  moreover have "strip (s5\<lparr>isUpdatingCamera := False\<rparr>) = strip s"
    by (simp add: strip_guard s5(2) s4(2) s3(2) s2(2) s1(2) b0(3))
  ultimately show ?thesis using False by simp
qed

lemma invoke_completes:
  "both s \<Longrightarrow> \<exists>s'. invoke (modified (Suc n) E) E cbs s = Some (Inr s') \<and>
              strip s' = strip s \<and> isUpdatingCamera s' = isUpdatingCamera s"
proof (induction cbs arbitrary: s)
  case Nil
  show ?case by simp
next
  case (Cons cb cbs)
  obtain src tgt where cb: "cb = SyncCallback src tgt" by (cases cb)
  obtain s1 where s1:
    "(if truthy (syncCameras s) then syncCamera (modified (Suc n) E) E src tgt s else Some (Inr s))
       = Some (Inr s1)" "strip s1 = strip s" "isUpdatingCamera s1 = isUpdatingCamera s"
    using syncCamera_completes [OF Cons.prems, of n E src tgt] by (cases "truthy (syncCameras s)") auto
  have "both s1" using s1(2) Cons.prems strip_both by blast
  from Cons.IH [OF this] obtain s2 where
    "invoke (modified (Suc n) E) E cbs s1 = Some (Inr s2)" "strip s2 = strip s1"
    "isUpdatingCamera s2 = isUpdatingCamera s1" by blast
  thus ?case using s1 by (simp add: cb and_then_Inr)
qed

lemma modified_completes:
  assumes "both s"
  shows "\<exists>s'. modified (Suc (Suc n)) E c s = Some (Inr s') \<and>
              strip s' = strip s \<and> isUpdatingCamera s' = isUpdatingCamera s"
proof -
  obtain v where "vp_of c s = Some v" using both_vp [OF assms] by blast
  thus ?thesis using invoke_completes [OF assms, of n E "onModified (camera v)"]
    by (simp add: modified.simps)
qed

lemma poseChange_completes:
  assumes "both s"
  shows "\<exists>s'. poseChange (Suc (Suc n)) E c p s = Some (Inr s') \<and>
              strip s' = strip s \<and> isUpdatingCamera s' = isUpdatingCamera s"
proof -
  obtain v where v: "vp_of c s = Some v" using both_vp [OF assms] by blast
  let ?s1 = "set_vp c (v\<lparr>camera := with_pose p (camera v)\<rparr>) s"
  have "blank (v\<lparr>camera := with_pose p (camera v)\<rparr>) = blank v"
    by (cases p) (simp add: blank_def)
  hence st: "strip ?s1 = strip s" using v by (simp add: strip_set_vp)
  hence "both ?s1" using assms strip_both by blast
  from modified_completes [OF this, of n E c] show ?thesis
    using v st by (auto simp: poseChange_def guard_set_vp)
qed

lemma vp_of_other: "c \<noteq> c' \<Longrightarrow> vp_of c (set_vp c' v s) = vp_of c s"
  by (simp add: vp_of_set_vp)

lemma syncCamera_copies:
  assumes "\<not> isUpdatingCamera s" "src \<noteq> tgt" "vp_of src s = Some sv" "vp_of tgt s = Some tv"
  shows "syncCamera (modified (Suc n) E) E src tgt s =
         Some (Inr (set_vp tgt (tv\<lparr>camera := with_pose (pose_of (camera sv)) (camera tv),
                                   renders := Suc (renders tv)\<rparr>) s\<lparr>isUpdatingCamera := False\<rparr>))"
proof -
  let ?N = "modified (Suc n) E"
  define s0 where "s0 = s\<lparr>isUpdatingCamera := True\<rparr>"
  define c1 where "c1 = (camera tv)\<lparr>position := position (camera sv)\<rparr>"
  define c2 where "c2 = c1\<lparr>focalPoint := focalPoint (camera sv)\<rparr>"
  define c3 where "c3 = c2\<lparr>viewUp := viewUp (camera sv)\<rparr>"
  define c4 where "c4 = c3\<lparr>parallelScale := parallelScale (camera sv)\<rparr>"
  define st where "st = (\<lambda>c. set_vp tgt (tv\<lparr>camera := c\<rparr>) s0)"
  have g0: "isUpdatingCamera s0" and a0: "vp_of src s0 = Some sv" and b0: "vp_of tgt s0 = Some tv"
    using assms by (simp_all add: s0_def vp_of_guard)
  have inv: "isUpdatingCamera (st c) \<and> vp_of src (st c) = Some sv \<and>
             vp_of tgt (st c) = Some (tv\<lparr>camera := c\<rparr>)" for c
    using g0 a0 assms(2) by (simp add: st_def guard_set_vp vp_of_set_vp)
  have step: "copyField ?N E src tgt put (st c) = Some (Inr (st (put (camera sv) c)))" for put c
    using inv [of c] by (simp add: copyField_guarded) (simp add: st_def set_vp_twice)
  have first: "copyField ?N E src tgt put s0 = Some (Inr (st (put (camera sv) (camera tv))))" for put
    using g0 a0 b0 by (simp add: copyField_guarded st_def)
  have r: "renderVp tgt (st c4) = Some (Inr (set_vp tgt (tv\<lparr>camera := c4, renders := Suc (renders tv)\<rparr>) s0))"
    using inv [of c4] by (simp add: renderVp_def) (simp add: st_def set_vp_twice)
  have c4: "c4 = with_pose (pose_of (camera sv)) (camera tv)"
    by (simp add: c4_def c3_def c2_def c1_def pose_of_def)
  have "syncCamera ?N E src tgt s =
        Some (Inr (set_vp tgt (tv\<lparr>camera := c4, renders := Suc (renders tv)\<rparr>) s0
                    \<lparr>isUpdatingCamera := False\<rparr>))"
    using assms(1) unfolding syncCamera_def s0_def [symmetric]
    by (simp add: first step r and_then_Inr c1_def [symmetric] c2_def [symmetric]
        c3_def [symmetric] c4_def [symmetric])
  thus ?thesis
    by (simp add: c4 s0_def set_vp_guard_swap)
qed

lemma pose_of_with_pose: "pose_of (with_pose p c) = p"
  by (cases p) (simp add: pose_of_def)

lemma onModified_with_pose: "onModified (with_pose p c) = onModified c"
  by (cases p) simp

lemma poseChange_mirrors:
  assumes "src \<noteq> tgt" "vp_of src s = Some sv" "vp_of tgt s = Some tv"
    and "onModified (camera sv) = [SyncCallback src tgt]"
    and "truthy (syncCameras s)" "\<not> isUpdatingCamera s"
  shows "poseChange (Suc (Suc n)) E src p s =
         Some (Inr (set_vp tgt (tv\<lparr>camera := with_pose p (camera tv), renders := Suc (renders tv)\<rparr>)
                      (set_vp src (sv\<lparr>camera := with_pose p (camera sv)\<rparr>) s)
                    \<lparr>isUpdatingCamera := False\<rparr>))"
proof -
  define s1 where "s1 = set_vp src (sv\<lparr>camera := with_pose p (camera sv)\<rparr>) s"
  have s1: "vp_of src s1 = Some (sv\<lparr>camera := with_pose p (camera sv)\<rparr>)" "vp_of tgt s1 = Some tv"
      "\<not> isUpdatingCamera s1" "truthy (syncCameras s1)"
    using assms by (simp_all add: s1_def vp_of_set_vp guard_set_vp) (cases src; simp)
  have "syncCamera (modified (Suc n) E) E src tgt s1 =
        Some (Inr (set_vp tgt (tv\<lparr>camera := with_pose p (camera tv), renders := Suc (renders tv)\<rparr>) s1
                   \<lparr>isUpdatingCamera := False\<rparr>))"
    using syncCamera_copies [OF s1(3) assms(1) s1(1) s1(2), of n E] by (simp add: pose_of_with_pose)
  thus ?thesis
    using s1 assms(2,4)
    by (simp add: poseChange_def modified.simps s1_def [symmetric] onModified_with_pose and_then_Inr)
qed

lemma poseChange_off:
  assumes "\<not> truthy (syncCameras s)" "vp_of c s = Some v"
  shows "poseChange (Suc n) E c p s = Some (Inr (set_vp c (v\<lparr>camera := with_pose p (camera v)\<rparr>) s))"
proof -
  have "\<not> truthy (syncCameras (set_vp c (v\<lparr>camera := with_pose p (camera v)\<rparr>) s))"
    using assms(1) by (cases c) simp_all
  thus ?thesis using assms(2)
    by (simp add: poseChange_def modified.simps vp_of_set_vp invoke_disabled)
qed

lemma poseChanges_off:
  "\<not> truthy (syncCameras s) \<Longrightarrow> viewportA s = Some a \<Longrightarrow>
   \<exists>s'. poseChanges (Suc n) E VpA ps s = Some (Inr s') \<and> viewportB s' = viewportB s"
proof (induction ps arbitrary: s a)
  case Nil
  show ?case by simp
next
  case (Cons p ps)
  let ?s1 = "set_vp VpA (a\<lparr>camera := with_pose p (camera a)\<rparr>) s"
  have step: "poseChange (Suc n) E VpA p s = Some (Inr ?s1)"
    using Cons.prems by (simp add: poseChange_off)
  have "\<not> truthy (syncCameras ?s1)" "viewportA ?s1 = Some (a\<lparr>camera := with_pose p (camera a)\<rparr>)"
    using Cons.prems by simp_all
  from Cons.IH [OF this] obtain s' where
    "poseChanges (Suc n) E VpA ps ?s1 = Some (Inr s')" "viewportB s' = viewportB ?s1" by blast
  thus ?case using step by (simp add: and_then_Inr)
qed

subsection \<open>Camera synchronisation\<close>

text \<open>
  C2. With camera sync enabled and the guard \<open>_isUpdatingCamera\<close> down, a single pose
  change on viewport A's camera completes within two levels of nesting and leaves the
  viewer exactly as follows: A's camera has the new pose and nothing else of A changed,
  B's camera has the same pose and B was rendered once (one pose copy onto B, none back
  onto A), and the guard is down again. The callbacks of B's camera that the copy
  triggers find the guard up and return.
\<close>

theorem camera_sync_copies_once:
  assumes "viewportA s = Some a" "viewportB s = Some b"
    and "onModified (camera a) = [SyncCallback VpA VpB]"
    and "truthy (syncCameras s)" "\<not> isUpdatingCamera s"
  shows "poseChange (Suc (Suc n)) E VpA p s =
         Some (Inr (s\<lparr>viewportA := Some (a\<lparr>camera := with_pose p (camera a)\<rparr>),
                      viewportB := Some (b\<lparr>camera := with_pose p (camera b),
                                           renders := Suc (renders b)\<rparr>),
                      isUpdatingCamera := False\<rparr>))"
  using poseChange_mirrors [of VpA VpB s a b n E p] assms by simp

lemma demoViewer_eq:
  "demoViewer = (DualViewer DUAL_CONFIG)\<lparr>
     viewportA := Some (subscribe (SyncCallback VpA VpB) (createViewport VpA)),
     viewportB := Some (subscribe (SyncCallback VpB VpA) (createViewport VpB)),
     resizeObserverA := Some True, resizeObserverB := Some True,
     messageCleanup := True, listening := True, isInitialized := True\<rparr>"
  by (simp add: demoViewer_def initialize_def DualViewer_def DUAL_CONFIG_def demoEnv_def
      setupCameraSync_def)

lemma unsyncedViewer_eq:
  "unsyncedViewer = (DualViewer (DUAL_CONFIG\<lparr>cfg_syncCameras := JBool False\<rparr>))\<lparr>
     viewportA := Some (createViewport VpA),
     viewportB := Some (createViewport VpB),
     resizeObserverA := Some True, resizeObserverB := Some True,
     messageCleanup := True, listening := True, isInitialized := True\<rparr>"
  by (simp add: unsyncedViewer_def initialize_def DualViewer_def DUAL_CONFIG_def demoEnv_def)

theorem camera_sync_copies_once_witness:
  "poseAfter VpB (poseChange (Suc (Suc 0)) demoEnv VpA demoPose demoViewer) = Some demoPose \<and>
   poseAfter VpA (poseChange (Suc (Suc 0)) demoEnv VpA demoPose demoViewer) = Some demoPose \<and>
   map_option isUpdatingCamera (finished (poseChange (Suc (Suc 0)) demoEnv VpA demoPose demoViewer))
     = Some False"
proof -
  let ?a = "subscribe (SyncCallback VpA VpB) (createViewport VpA)"
  let ?b = "subscribe (SyncCallback VpB VpA) (createViewport VpB)"
  have h: "viewportA demoViewer = Some ?a" "viewportB demoViewer = Some ?b"
      "onModified (camera ?a) = [SyncCallback VpA VpB]"
      "truthy (syncCameras demoViewer)" "\<not> isUpdatingCamera demoViewer"
    by (simp_all add: demoViewer_eq DualViewer_def DUAL_CONFIG_def subscribe_def
        createViewport_def newCamera_def)
  show ?thesis
    using camera_sync_copies_once [OF h, of 0 demoEnv demoPose]
    by (simp add: poseAfter_def finished_def cameraPose_def pose_of_with_pose)
qed

text \<open>
  C7. After \<open>setCameraSync(false)\<close>, any number of subsequent pose changes on
  viewport A's camera complete and leave viewport B, its camera pose included, exactly
  as it was.
\<close>

theorem sync_off_stops_propagation:
  assumes "viewportA s = Some a"
  shows "map_option viewportB
           (finished (poseChanges (Suc n) E VpA ps (setCameraSync (JBool False) s)))
         = Some (viewportB s)"
proof -
  have "\<not> truthy (syncCameras (setCameraSync (JBool False) s))"
       "viewportA (setCameraSync (JBool False) s) = Some a"
    using assms by (simp_all add: setCameraSync_def)
  from poseChanges_off [OF this, of n E ps] show ?thesis
    by (auto simp: finished_def setCameraSync_def)
qed

theorem sync_off_stops_propagation_witness:
  "map_option viewportB
     (finished (poseChanges (Suc 0) demoEnv VpA [demoPose, ((1, 1, 1), (0, 0, 0), (0, 1, 0), 1)]
        (setCameraSync (JBool False) demoViewer)))
   = Some (viewportB demoViewer)"
proof -
  have h: "viewportA demoViewer = Some (subscribe (SyncCallback VpA VpB) (createViewport VpA))"
    by (simp add: demoViewer_eq)
  show ?thesis
    by (rule sync_off_stops_propagation [OF h])
qed

text \<open>
  C8. A DualViewer constructed with \<open>syncCameras: false\<close> and initialised has no
  callback subscribed to its cameras, because \<open>initialize\<close> calls
  \<open>_setupCameraSync\<close> only when the flag is set. After \<open>setCameraSync(true)\<close> a pose
  change on A's camera therefore leaves B's camera at its initial pose.
\<close>

theorem enabling_sync_late_has_no_effect:
  "poseAfter VpB (poseChange (Suc (Suc 0)) demoEnv VpA demoPose
      (setCameraSync (JBool True) unsyncedViewer)) = Some (pose_of newCamera) \<and>
   poseAfter VpA (poseChange (Suc (Suc 0)) demoEnv VpA demoPose
      (setCameraSync (JBool True) unsyncedViewer)) = Some demoPose \<and>
   pose_of newCamera \<noteq> demoPose"
  by (simp add: unsyncedViewer_eq DualViewer_def setCameraSync_def poseChange_def modified.simps
      createViewport_def newCamera_def poseAfter_def finished_def cameraPose_def pose_of_def
      demoPose_def)

text \<open>
  C9. Whether a viewport has a dataset is not consulted by the synchronisation: in a
  freshly initialised viewer, where neither viewport has one, a pose change on A's
  camera does change B's camera.
\<close>

theorem sync_without_datasets_counterexample:
  "map_option polyData (viewportA demoViewer) = Some None \<and>
   map_option polyData (viewportB demoViewer) = Some None \<and>
   truthy (syncCameras demoViewer) \<and>
   cameraPose VpB demoViewer = Some (pose_of newCamera) \<and>
   pose_of newCamera \<noteq> demoPose \<and>
   poseAfter VpB (poseChange (Suc (Suc 0)) demoEnv VpA demoPose demoViewer) = Some demoPose"
proof -
  let ?a = "subscribe (SyncCallback VpA VpB) (createViewport VpA)"
  let ?b = "subscribe (SyncCallback VpB VpA) (createViewport VpB)"
  have h: "VpA \<noteq> VpB" "vp_of VpA demoViewer = Some ?a" "vp_of VpB demoViewer = Some ?b"
      "onModified (camera ?a) = [SyncCallback VpA VpB]"
      "truthy (syncCameras demoViewer)" "\<not> isUpdatingCamera demoViewer"
    by (simp_all add: demoViewer_eq DualViewer_def DUAL_CONFIG_def subscribe_def
        createViewport_def newCamera_def)
  have "poseAfter VpB (poseChange (Suc (Suc 0)) demoEnv VpA demoPose demoViewer) = Some demoPose"
    using poseChange_mirrors [OF h, of 0 demoEnv demoPose]
    by (simp add: poseAfter_def finished_def cameraPose_def pose_of_with_pose)
  thus ?thesis
    by (simp add: demoViewer_eq DualViewer_def DUAL_CONFIG_def subscribe_def createViewport_def
        newCamera_def cameraPose_def pose_of_def demoPose_def)
qed

text \<open>
  C9, as the code has it. With camera sync enabled and the guard down, a pose change on
  one viewport's camera is copied to the other viewport's camera also when either
  viewport has no dataset loaded.
\<close>

theorem camera_sync_ignores_datasets:
  assumes "src \<noteq> tgt" "vp_of src s = Some sv" "vp_of tgt s = Some tv"
    and "onModified (camera sv) = [SyncCallback src tgt]"
    and "truthy (syncCameras s)" "\<not> isUpdatingCamera s"
    and "polyData sv = None \<or> polyData tv = None"
  shows "poseAfter tgt (poseChange (Suc (Suc n)) E src p s) = Some p"
  using poseChange_mirrors [OF assms(1-6), of n E p]
  by (simp add: poseAfter_def finished_def cameraPose_def vp_of_guard vp_of_set_vp pose_of_with_pose)

theorem camera_sync_ignores_datasets_witness:
  "poseAfter VpA (poseChange (Suc (Suc 0)) demoEnv VpB demoPose demoViewer) = Some demoPose"
proof -
  let ?a = "subscribe (SyncCallback VpA VpB) (createViewport VpA)"
  let ?b = "subscribe (SyncCallback VpB VpA) (createViewport VpB)"
  have h: "VpB \<noteq> VpA" "vp_of VpB demoViewer = Some ?b" "vp_of VpA demoViewer = Some ?a"
      "onModified (camera ?b) = [SyncCallback VpB VpA]"
      "truthy (syncCameras demoViewer)" "\<not> isUpdatingCamera demoViewer"
      "polyData ?b = None \<or> polyData ?a = None"
    by (simp_all add: demoViewer_eq DualViewer_def DUAL_CONFIG_def subscribe_def
        createViewport_def newCamera_def)
  show ?thesis
    using camera_sync_ignores_datasets [OF h, of 0 demoEnv demoPose] by simp
qed

subsection \<open>Field ranges\<close>

lemma fold_unionRange:
  "fold unionRange rs r = (Min (fst ` set (r # rs)), Max (snd ` set (r # rs)))"
proof (induction rs arbitrary: r)
  case Nil
  show ?case by simp
next
  case (Cons x rs)
  obtain a0 a1 where r: "r = (a0, a1)" by (cases r)
  obtain b0 b1 where x: "x = (b0, b1)" by (cases x)
  have "Min (insert (min b0 a0) (fst ` set rs)) = Min (insert a0 (insert b0 (fst ` set rs)))"
    by (cases "rs = []") (simp_all add: ac_simps)
  moreover
  have "Max (insert (max b1 a1) (snd ` set rs)) = Max (insert a1 (insert b1 (snd ` set rs)))"
    by (cases "rs = []") (simp_all add: ac_simps)
  ultimately show ?case
    by (simp add: Cons.IH r x)
qed

lemma mset_map_filter:
  "mset xs = mset ys \<Longrightarrow> mset (List.map_filter g xs) = mset (List.map_filter g ys)"
  by (simp add: map_filter_def)

lemma calc_by_set:
  assumes "mset rs = mset rs'"
  shows "(case rs of [] \<Rightarrow> Inl e | r # t \<Rightarrow> Inr (fold unionRange t r)) =
         (case rs' of [] \<Rightarrow> Inl e | r # t \<Rightarrow> Inr (fold unionRange t r))"
proof -
  have s: "set rs = set rs'" using assms by (rule mset_eq_setD)
  show ?thesis
  proof (cases rs)
    case Nil
    with assms show ?thesis by simp
  next
    case (Cons r t)
    with assms obtain r' t' where c': "rs' = r' # t'" by (cases rs') auto
    have "set (r # t) = set (r' # t')" using s Cons c' by simp
    hence "fold unionRange t r = fold unionRange t' r'"
      unfolding fold_unionRange by presburger
    thus ?thesis by (simp add: Cons c')
  qed
qed

lemma calculateSynchronizedRange_perm:
  "mset ds = mset ds' \<Longrightarrow>
   calculateSynchronizedRange ds f = calculateSynchronizedRange ds' f"
  unfolding calculateSynchronizedRange_def
  by (rule calc_by_set) (rule mset_map_filter)

text \<open>
  C3. \<open>calculateSynchronizedRange\<close> does not depend on the order of its dataset list;
  for two datasets whose named attribute has the ranges \<open>[a0, a1]\<close> and \<open>[b0, b1]\<close> it
  returns \<open>[min a0 b0, max a1 b1]\<close>; when exactly one dataset of the list has the
  attribute it returns that dataset's range unchanged.
\<close>

theorem synchronized_range_is_union:
  "(mset ds = mset ds' \<longrightarrow>
      calculateSynchronizedRange ds f = calculateSynchronizedRange ds' f) \<and>
   (nativeRange f d1 = Some (a0, a1) \<and> nativeRange f d2 = Some (b0, b1) \<longrightarrow>
      calculateSynchronizedRange [d1, d2] f = Inr (min a0 b0, max a1 b1)) \<and>
   (filter (\<lambda>x. nativeRange f x \<noteq> None) ds = [d] \<and> nativeRange f d = Some r \<longrightarrow>
      calculateSynchronizedRange ds f = Inr r)"
proof (intro conjI impI)
  assume "mset ds = mset ds'"
  thus "calculateSynchronizedRange ds f = calculateSynchronizedRange ds' f"
    by (rule calculateSynchronizedRange_perm)
next
  assume "nativeRange f d1 = Some (a0, a1) \<and> nativeRange f d2 = Some (b0, b1)"
  thus "calculateSynchronizedRange [d1, d2] f = Inr (min a0 b0, max a1 b1)"
    by (simp add: calculateSynchronizedRange_def map_filter_def min.commute max.commute)
next
  assume "filter (\<lambda>x. nativeRange f x \<noteq> None) ds = [d] \<and> nativeRange f d = Some r"
  thus "calculateSynchronizedRange ds f = Inr r"
    by (simp add: calculateSynchronizedRange_def map_filter_def)
qed

theorem synchronized_range_is_union_witness:
  "calculateSynchronizedRange [[(''height'', (0, 10))], [(''height'', (5, 20))]] (JStr ''height'')
     = Inr (0, 20) \<and>
   calculateSynchronizedRange [[(''height'', (5, 20))], [(''height'', (0, 10))]] (JStr ''height'')
     = Inr (0, 20) \<and>
   calculateSynchronizedRange [[(''height'', (0, 10))], [(''curvature'', (5, 20))]] (JStr ''height'')
     = Inr (0, 10)"
proof -
  let ?d1 = "[(''height'', (0::real, 10::real))]"
  let ?d2 = "[(''height'', (5::real, 20::real))]"
  let ?d3 = "[(''curvature'', (5::real, 20::real))]"
  let ?f = "JStr ''height''"
  have pair: "nativeRange ?f ?d1 = Some (0, 10) \<and> nativeRange ?f ?d2 = Some (5, 20)"
    by simp
  have perm: "mset [?d1, ?d2] = mset [?d2, ?d1]"
    by simp
  have one: "filter (\<lambda>x. nativeRange ?f x \<noteq> None) [?d1, ?d3] = [?d1] \<and>
             nativeRange ?f ?d1 = Some (0, 10)"
    by simp
  have t1: "calculateSynchronizedRange [?d1, ?d2] ?f = Inr (min 0 5, max 10 20)"
    using synchronized_range_is_union [where ds = "[?d1, ?d2]" and ds' = "[?d2, ?d1]" and f = ?f
        and ?d1.0 = ?d1 and ?a0.0 = 0 and ?a1.0 = 10 and ?d2.0 = ?d2 and ?b0.0 = 5 and ?b1.0 = 20]
      pair by blast
  have t2: "calculateSynchronizedRange [?d1, ?d2] ?f = calculateSynchronizedRange [?d2, ?d1] ?f"
    using synchronized_range_is_union [where ds = "[?d1, ?d2]" and ds' = "[?d2, ?d1]" and f = ?f
        and ?d1.0 = ?d1 and ?a0.0 = 0 and ?a1.0 = 10 and ?d2.0 = ?d2 and ?b0.0 = 5 and ?b1.0 = 20]
      perm by blast
  have t3: "calculateSynchronizedRange [?d1, ?d3] ?f = Inr (0, 10)"
    using synchronized_range_is_union [where ds = "[?d1, ?d3]" and f = ?f and d = ?d1 and r = "(0, 10)"]
      one by blast
  show ?thesis
    using t1 t2 t3 by simp
qed

subsection \<open>Loading\<close>

lemma blank_keeps:
  assumes "blank v' = blank v"
  shows "dataset_of v' = dataset_of v" "rendererActors v' = rendererActors v"
proof -
  have "dataset_of (blank v') = dataset_of (blank v)" "rendererActors (blank v') = rendererActors (blank v)"
    using assms by simp_all
  thus "dataset_of v' = dataset_of v" "rendererActors v' = rendererActors v"
    by (simp_all add: blank_def dataset_of_def)
qed

lemma strip_vp: "strip s' = strip s \<Longrightarrow> map_option blank (vp_of c s') = map_option blank (vp_of c s)"
proof -
  assume h: "strip s' = strip s"
  have "viewportA (strip s') = viewportA (strip s)" "viewportB (strip s') = viewportB (strip s)"
    using h by simp_all
  thus ?thesis by (cases c) (simp_all add: strip_def)
qed

lemma strip_dataset:
  assumes "strip s' = strip s"
  shows "map_option dataset_of (vp_of c s') = map_option dataset_of (vp_of c s)"
proof -
  have m: "map_option blank (vp_of c s') = map_option blank (vp_of c s)"
    using assms by (rule strip_vp)
  show ?thesis
  proof (cases "vp_of c s")
    case None
    with m show ?thesis by simp
  next
    case (Some v)
    with m obtain v' where v': "vp_of c s' = Some v'" "blank v' = blank v" by auto
    show ?thesis using Some v'(1) blank_keeps(1) [OF v'(2)] by simp
  qed
qed

lemma strip_outbox: "strip s' = strip s \<Longrightarrow> outbox s' = outbox s"
proof -
  assume "strip s' = strip s"
  hence "outbox (strip s') = outbox (strip s)" by simp
  thus ?thesis by (simp add: strip_def)
qed

lemma positionCamera_completes:
  assumes "both s"
  shows "\<exists>s'. positionCameraForViewport (Suc (Suc n)) E c s = Some (Inr s') \<and> strip s' = strip s"
proof -
  obtain v where v: "vp_of c s = Some v" using both_vp [OF assms] by blast
  show ?thesis
  proof (cases "actors v = [] \<or> framing E (actors v) = None")
    case True
    with v show ?thesis by (auto simp: positionCameraForViewport_def)
  next
    case False
    then obtain p where "framing E (actors v) = Some p" "actors v \<noteq> []" by auto
    with v poseChange_completes [OF assms, of n E c p] show ?thesis
      by (auto simp: positionCameraForViewport_def)
  qed
qed



lemma both_set_vp: "both s \<Longrightarrow> both (set_vp c v s)"
  by (cases c) (simp_all add: both_def)

lemma loadMesh_resolve_shows:
  assumes "both s"
  shows "\<exists>s'. loadMesh_resolve (Suc (Suc n)) E l r s = Some (Inr s') \<and> both s' \<and>
           map_option dataset_of (vp_of (target l) s') =
             Some (res_actors r, res_polyData r, extractFilename E (url l)) \<and>
           (\<forall>c. c \<noteq> target l \<longrightarrow>
              map_option dataset_of (vp_of c s') = map_option dataset_of (vp_of c s)) \<and>
           outbox s' = outbox s @
             [MeshLoaded (viewportArg l) (extractFilename E (url l)) (res_format r)
                (res_hasTexture r) (res_hasVertexColors r)]"
proof -
  let ?c = "target l"
  obtain v where v: "vp_of ?c s = Some v" using both_vp [OF assms] by blast
  define v1 where "v1 = v\<lparr>actors := res_actors r, polyData := res_polyData r,
     filename := extractFilename E (url l),
     rendererActors := fold addActor (res_actors r) (rendererActors v),
     look := configureLook (config s) (viewportArg l) r\<rparr>"
  define s1 where "s1 = set_vp ?c v1 s"
  have b1: "both s1" using assms by (simp add: s1_def both_set_vp)
  obtain s2 where s2: "positionCameraForViewport (Suc (Suc n)) E ?c s1 = Some (Inr s2)"
      "strip s2 = strip s1"
    using positionCamera_completes [OF b1] by blast
  have b2: "both s2" using s2(2) b1 strip_both by blast
  obtain s3 where s3: "renderVp ?c s2 = Some (Inr s3)" "strip s3 = strip s2"
    using renderVp_step [OF b2] by blast
  have st: "strip s3 = strip s1" using s2(2) s3(2) by simp
  have b3: "both s3" using st b1 strip_both by blast
  have d3: "map_option dataset_of (vp_of c s3) = map_option dataset_of (vp_of c s1)" for c
    using st by (rule strip_dataset)
  have d1: "map_option dataset_of (vp_of ?c s1) =
            Some (res_actors r, res_polyData r, extractFilename E (url l))"
    by (simp add: s1_def vp_of_set_vp v1_def dataset_of_def)
  obtain v3 where v3: "vp_of ?c s3 = Some v3" using both_vp [OF b3] by blast
  have f3: "filename v3 = extractFilename E (url l)"
    using d3 [of ?c] d1 v3 by (simp add: dataset_of_def)
  have run: "loadMesh_resolve (Suc (Suc n)) E l r s =
        Some (Inr (s3\<lparr>outbox := outbox s3 @
             [MeshLoaded (viewportArg l) (filename v3) (res_format r)
                (res_hasTexture r) (res_hasVertexColors r)]\<rparr>))"
    using v s2(1) s3(1) v3
    by (simp add: loadMesh_resolve_def v1_def [symmetric] s1_def [symmetric] and_then_Inr)
  let ?s' = "s3\<lparr>outbox := outbox s3 @
             [MeshLoaded (viewportArg l) (filename v3) (res_format r)
                (res_hasTexture r) (res_hasVertexColors r)]\<rparr>"
  have vp': "vp_of c ?s' = vp_of c s3" for c by (cases c) simp_all
  have o1: "outbox s1 = outbox s" by (cases ?c) (simp_all add: s1_def)
  have "both ?s'" using b3 by (simp add: both_def)
  moreover have "map_option dataset_of (vp_of ?c ?s') =
      Some (res_actors r, res_polyData r, extractFilename E (url l))"
    using d3 [of ?c] d1 by (simp add: vp')
  moreover have "\<forall>c. c \<noteq> ?c \<longrightarrow>
      map_option dataset_of (vp_of c ?s') = map_option dataset_of (vp_of c s)"
    using d3 by (simp add: vp' s1_def vp_of_set_vp)
  moreover have "outbox ?s' = outbox s @
             [MeshLoaded (viewportArg l) (extractFilename E (url l)) (res_format r)
                (res_hasTexture r) (res_hasVertexColors r)]"
    using strip_outbox [OF st] by (simp add: f3 o1)
  ultimately show ?thesis using run by blast
qed


lemmas eval_defs =
  onMessage_def field_def callLoadMesh_def loadMesh_begin_def select_def
  demoSys_def demoViewer_eq DualViewer_def DUAL_CONFIG_def subscribe_def createViewport_def
  newCamera_def without_def loadMesh_resolve_def positionCameraForViewport_def demoEnv_def
  poseChange_def modified.simps syncCamera_def copyField_def setCam_def renderVp_def
  and_then_def settle_def caught_def loadMesh_reject_def mesh1_def mesh2_def shownAfter_def
  shown_def dataset_of_def addActor_def removeActor_def configureLook_def defaultColor_def





text \<open>
  C10. Every viewport identifier other than the string \<open>'A'\<close> addresses viewport B:
  \<open>getViewport\<close> returns viewport B; \<open>loadMesh\<close> clears viewport B's actors and, in an
  initialised viewer, is not rejected but suspended with viewport B as its target; and
  when the loader resolves, the result is shown in viewport B while what viewport A
  shows is unchanged.
\<close>

theorem other_ids_address_viewport_B:
  assumes "i \<noteq> JStr ''A''"
  shows "getViewport i s = viewportB s \<and>
         (viewportB s = Some b \<longrightarrow>
            loadMesh_begin i u s =
              Inr (s\<lparr>viewportB := Some (b\<lparr>rendererActors :=
                         fold removeActor (actors b) (rendererActors b), actors := []\<rparr>)\<rparr>)) \<and>
         (viewportB (viewer sys) \<noteq> None \<longrightarrow>
            pending (callLoadMesh i u sys) =
              pending sys @ [\<lparr>target = VpB, viewportArg = i, url = u\<rparr>] \<and>
            uncaught (callLoadMesh i u sys) = uncaught sys) \<and>
         (both s \<longrightarrow>
            (\<exists>s'. loadMesh_resolve (Suc (Suc n)) E
                     \<lparr>target = select i, viewportArg = i, url = u\<rparr> r s = Some (Inr s') \<and>
                   map_option dataset_of (viewportB s') =
                     Some (res_actors r, res_polyData r, extractFilename E u) \<and>
                   map_option dataset_of (viewportA s') = map_option dataset_of (viewportA s)))"
proof (intro conjI impI)
  show "getViewport i s = viewportB s"
    using assms by (simp add: getViewport_def)
next
  assume "viewportB s = Some b"
  thus "loadMesh_begin i u s =
          Inr (s\<lparr>viewportB := Some (b\<lparr>rendererActors :=
                 fold removeActor (actors b) (rendererActors b), actors := []\<rparr>)\<rparr>)"
    using assms by (simp add: loadMesh_begin_def select_def)
next
  assume "viewportB (viewer sys) \<noteq> None"
  thus "pending (callLoadMesh i u sys) = pending sys @ [\<lparr>target = VpB, viewportArg = i, url = u\<rparr>]"
    using assms by (auto simp: callLoadMesh_def loadMesh_begin_def select_def)
next
  assume "viewportB (viewer sys) \<noteq> None"
  thus "uncaught (callLoadMesh i u sys) = uncaught sys"
    using assms by (auto simp: callLoadMesh_def loadMesh_begin_def select_def)
next
  assume b: "both s"
  let ?l = "\<lparr>target = select i, viewportArg = i, url = u\<rparr>"
  have t: "target ?l = VpB" using assms by (simp add: select_def)
  from loadMesh_resolve_shows [OF b, of n E ?l r] obtain s' where
    s': "loadMesh_resolve (Suc (Suc n)) E ?l r s = Some (Inr s')"
      "map_option dataset_of (vp_of (target ?l) s') =
         Some (res_actors r, res_polyData r, extractFilename E (url ?l))"
      "\<forall>c. c \<noteq> target ?l \<longrightarrow>
         map_option dataset_of (vp_of c s') = map_option dataset_of (vp_of c s)"
    by blast
  have "map_option dataset_of (viewportB s') = Some (res_actors r, res_polyData r, extractFilename E u)"
    using s'(2) t by simp
  moreover have "map_option dataset_of (viewportA s') = map_option dataset_of (viewportA s)"
    using s'(3) [rule_format, of VpA] t by simp
  ultimately show "\<exists>s'. loadMesh_resolve (Suc (Suc n)) E ?l r s = Some (Inr s') \<and>
      map_option dataset_of (viewportB s') = Some (res_actors r, res_polyData r, extractFilename E u) \<and>
      map_option dataset_of (viewportA s') = map_option dataset_of (viewportA s)"
    using s'(1) by blast
qed

theorem other_ids_address_viewport_B_witness:
  "getViewport JUndefined demoViewer = viewportB demoViewer \<and>
   getViewport (JStr ''left'') demoViewer = viewportB demoViewer \<and>
   pending (callLoadMesh (JStr ''left'') (JStr ''mesh1.obj'') demoSys) =
     [\<lparr>target = VpB, viewportArg = JStr ''left'', url = JStr ''mesh1.obj''\<rparr>] \<and>
   uncaught (callLoadMesh (JStr ''left'') (JStr ''mesh1.obj'') demoSys) = []"
proof -
  have h1: "JUndefined \<noteq> JStr ''A''" and h2: "JStr ''left'' \<noteq> JStr ''A''"
    by simp_all
  have v: "viewportB (viewer demoSys) \<noteq> None"
    by (simp add: demoSys_def demoViewer_eq)
  show ?thesis
    using other_ids_address_viewport_B [OF h1, of demoViewer]
      other_ids_address_viewport_B [OF h2, of demoViewer _ _ demoSys] v
    by (simp add: demoSys_def)
qed

subsection \<open>Failed loads\<close>

lemma fold_removeActor: "fold removeActor xs r = filter (\<lambda>a. a \<notin> set xs) r"
proof (induction xs arbitrary: r)
  case Nil
  show ?case by simp
next
  case (Cons x xs)
  have "removeActor x r = filter (\<lambda>a. a \<noteq> x) r"
    by (induction r) (auto simp: removeActor_def)
  thus ?case by (simp add: Cons.IH conj_commute)
qed


lemma fold_removeActor_twice: "fold removeActor xs (fold removeActor xs r) = fold removeActor xs r"
  by (simp add: fold_removeActor)











subsection \<open>Teardown\<close>

lemma destroyViewport_fresh:
  "\<not> glDeleted v \<Longrightarrow> \<not> rwDeleted v \<Longrightarrow>
   destroyViewport E v =
     Inr (v\<lparr>rendererActors := fold removeActor (actors v) (rendererActors v),
            eventsBound := False, glDeleted := True, rwDeleted := True\<rparr>)"
  by (simp add: destroyViewport_def release_def)

lemma destroyViewport_again:
  "glDeleted v \<Longrightarrow>
   destroyViewport E v =
     (if repeatRelease E
      then Inr (v\<lparr>rendererActors := fold removeActor (actors v) (rendererActors v),
                 eventsBound := False, glDeleted := True, rwDeleted := True\<rparr>)
      else Inl (TypeError, v\<lparr>rendererActors := fold removeActor (actors v) (rendererActors v),
                             eventsBound := False\<rparr>))"
  by (simp add: destroyViewport_def release_def)

lemma disconnect_twice: "disconnect (disconnect ob) = disconnect ob"
  by (cases ob) (simp_all add: disconnect_def)

lemma destroy_first:
  assumes "viewportA s = Some a" "viewportB s = Some b"
    and "\<not> glDeleted a" "\<not> rwDeleted a" "\<not> glDeleted b" "\<not> rwDeleted b"
  shows "destroy E s =
     Inr (s\<lparr>listening := (if messageCleanup s then False else listening s),
            resizeObserverA := disconnect (resizeObserverA s),
            resizeObserverB := disconnect (resizeObserverB s),
            viewportA := Some (a\<lparr>rendererActors := fold removeActor (actors a) (rendererActors a),
                                 eventsBound := False, glDeleted := True, rwDeleted := True\<rparr>),
            viewportB := Some (b\<lparr>rendererActors := fold removeActor (actors b) (rendererActors b),
                                 eventsBound := False, glDeleted := True, rwDeleted := True\<rparr>)\<rparr>)"
  using assms by (simp add: destroy_def destroyEntry_def destroyViewport_fresh)

lemma destroy_second:
  assumes "viewportA s = Some a" "viewportB s = Some b"
    and "\<not> glDeleted a" "\<not> rwDeleted a" "\<not> glDeleted b" "\<not> rwDeleted b"
  shows "destroyTwice E s =
     (if repeatRelease E then destroy E s else Inl (TypeError, state_of (destroy E s)))"
  unfolding destroyTwice_def destroy_first [OF assms]
  by (simp add: destroy_def destroyEntry_def destroyViewport_again disconnect_twice
      fold_removeActor_twice)

lemma destroy_uninitialised:
  assumes "viewportA s = None" "viewportB s = None"
  shows "\<not> raised (destroyTwice E s)" "dangling (state_of (destroyTwice E s)) = []"
  using assms by (simp_all add: destroyTwice_def destroy_def destroyEntry_def dangling_def)

lemma destroyPipeline_fresh:
  "\<not> pl_glDeleted pl \<Longrightarrow> \<not> pl_rwDeleted pl \<Longrightarrow>
   destroyPipeline E pl =
     Inr (pl\<lparr>pl_eventsBound := False, pl_glDeleted := True, pl_rwDeleted := True\<rparr>)"
  by (simp add: destroyPipeline_def releasePl_def)

lemma destroyPipeline_again:
  "pl_glDeleted pl \<Longrightarrow>
   destroyPipeline E pl =
     (if repeatRelease E
      then Inr (pl\<lparr>pl_eventsBound := False, pl_glDeleted := True, pl_rwDeleted := True\<rparr>)
      else Inl (TypeError, pl\<lparr>pl_eventsBound := False\<rparr>))"
  by (simp add: destroyPipeline_def releasePl_def)

lemma detach_twice: "detach (detach ov) = detach ov"
  by (cases ov) (simp_all add: detach_def)

lemma b_destroy_first:
  assumes "b_pipeline bs = Some pl" "\<not> pl_glDeleted pl" "\<not> pl_rwDeleted pl"
  shows "b_destroy E bs =
     Inr (bs\<lparr>b_listening := (if b_messageCleanup bs then False else b_listening bs),
             b_resizeObserver := disconnect (b_resizeObserver bs),
             b_pipeline := Some (pl\<lparr>pl_axisIndicator := map_option (\<lambda>_. False) (pl_axisIndicator pl),
                 pl_actors := fold removeActor (b_actors bs) (pl_actors pl),
                 pl_eventsBound := False, pl_glDeleted := True, pl_rwDeleted := True\<rparr>),
             b_actors := [], b_polyDatas := [],
             b_loadingOverlay := detach (b_loadingOverlay bs),
             b_infoOverlay := detach (b_infoOverlay bs)\<rparr>)"
  using assms by (simp add: b_destroy_def destroyPipeline_fresh)

lemma b_destroy_second:
  assumes "b_pipeline bs = Some pl" "\<not> pl_glDeleted pl" "\<not> pl_rwDeleted pl"
  shows "b_destroyTwice E bs =
     (if repeatRelease E then b_destroy E bs else Inl (TypeError, state_of (b_destroy E bs)))"
  unfolding b_destroyTwice_def b_destroy_first [OF assms]
  by (simp add: b_destroy_def destroyPipeline_again disconnect_twice detach_twice
      option.map_comp comp_def)

lemma b_destroy_uninitialised:
  assumes "b_pipeline bs = None" "b_actors bs = []"
  shows "\<not> raised (b_destroyTwice E bs)" "\<not> b_dangling (state_of (b_destroyTwice E bs))"
  using assms
  by (simp_all add: b_destroyTwice_def b_destroy_def clearScene_def b_dangling_def)

text \<open>
  C5. An initialised DualViewer is destroyed twice. The second call raises, and after
  the first call as after the second the controller still refers to both viewports,
  whose render windows are deleted.
\<close>

theorem destroy_twice_counterexample:
  "raised (destroyTwice demoEnv demoViewer) \<and>
   dangling (state_of (destroy demoEnv demoViewer)) = [VpA, VpB] \<and>
   dangling (state_of (destroyTwice demoEnv demoViewer)) = [VpA, VpB]"
proof -
  let ?a = "subscribe (SyncCallback VpA VpB) (createViewport VpA)"
  let ?b = "subscribe (SyncCallback VpB VpA) (createViewport VpB)"
  have h: "viewportA demoViewer = Some ?a" "viewportB demoViewer = Some ?b"
      "\<not> glDeleted ?a" "\<not> rwDeleted ?a" "\<not> glDeleted ?b" "\<not> rwDeleted ?b"
    by (simp_all add: demoViewer_eq subscribe_def createViewport_def)
  have r: "\<not> repeatRelease demoEnv" by (simp add: demoEnv_def)
  show ?thesis
    using destroy_second [OF h, of demoEnv] r
    by (simp add: destroy_first [OF h] dangling_def)
qed

text \<open>
  C5, as the code has it. \<open>destroy()\<close> of an initialised viewer completes the first
  time and leaves both viewports referred to with their render windows deleted: the
  references are never cleared. \<open>destroy()\<close> has no guard against a second call and
  repeats every release call, so the second call changes nothing and raises a
  TypeError exactly when the rendering library refuses \<open>delete()\<close> on a render window
  already deleted; where the library accepts it, the second call completes. A viewer
  whose initialisation failed before the viewports were created is destroyed twice
  without a raise and refers to no deleted viewport. The same holds for BaseViewer.
\<close>

theorem destroy_twice_repeats_release:
  assumes "viewportA s = Some a" "viewportB s = Some b"
    and "\<not> glDeleted a" "\<not> rwDeleted a" "\<not> glDeleted b" "\<not> rwDeleted b"
    and "b_pipeline bs = Some pl" "\<not> pl_glDeleted pl" "\<not> pl_rwDeleted pl"
  shows "\<not> raised (destroy E s) \<and>
         dangling (state_of (destroy E s)) = [VpA, VpB] \<and>
         destroyTwice E s =
           (if repeatRelease E then destroy E s else Inl (TypeError, state_of (destroy E s))) \<and>
         (viewportA s0 = None \<and> viewportB s0 = None \<longrightarrow>
            \<not> raised (destroyTwice E s0) \<and> dangling (state_of (destroyTwice E s0)) = []) \<and>
         \<not> raised (b_destroy E bs) \<and>
         b_dangling (state_of (b_destroy E bs)) \<and>
         b_destroyTwice E bs =
           (if repeatRelease E then b_destroy E bs else Inl (TypeError, state_of (b_destroy E bs))) \<and>
         (b_pipeline bs0 = None \<and> b_actors bs0 = [] \<longrightarrow>
            \<not> raised (b_destroyTwice E bs0) \<and> \<not> b_dangling (state_of (b_destroyTwice E bs0)))"
proof -
  have d: "\<not> raised (destroy E s)" "dangling (state_of (destroy E s)) = [VpA, VpB]"
    by (simp_all add: destroy_first [OF assms(1-6)] dangling_def)
  have b: "\<not> raised (b_destroy E bs)" "b_dangling (state_of (b_destroy E bs))"
    by (simp_all add: b_destroy_first [OF assms(7-9)] b_dangling_def)
  show ?thesis
    using d b destroy_second [OF assms(1-6), of E] b_destroy_second [OF assms(7-9), of E]
      destroy_uninitialised [of s0 E] b_destroy_uninitialised [of bs0 E]
    by blast
qed

theorem destroy_twice_repeats_release_witness:
  "\<not> raised (destroy demoEnv demoViewer) \<and>
   destroyTwice demoEnv demoViewer = Inl (TypeError, state_of (destroy demoEnv demoViewer)) \<and>
   destroyTwice (demoEnv\<lparr>repeatRelease := True\<rparr>) demoViewer
     = destroy (demoEnv\<lparr>repeatRelease := True\<rparr>) demoViewer \<and>
   \<not> raised (destroyTwice demoEnv (DualViewer DUAL_CONFIG)) \<and>
   b_destroyTwice demoEnv demoStandard = Inl (TypeError, state_of (b_destroy demoEnv demoStandard)) \<and>
   \<not> raised (b_destroyTwice demoEnv (StandardViewer STANDARD_CONFIG))"
proof -
  let ?a = "subscribe (SyncCallback VpA VpB) (createViewport VpA)"
  let ?b = "subscribe (SyncCallback VpB VpA) (createViewport VpB)"
  have h: "viewportA demoViewer = Some ?a" "viewportB demoViewer = Some ?b"
      "\<not> glDeleted ?a" "\<not> rwDeleted ?a" "\<not> glDeleted ?b" "\<not> rwDeleted ?b"
    by (simp_all add: demoViewer_eq subscribe_def createViewport_def)
  have p: "b_pipeline demoStandard = Some (newPipeline STANDARD_CONFIG)"
      "\<not> pl_glDeleted (newPipeline STANDARD_CONFIG)" "\<not> pl_rwDeleted (newPipeline STANDARD_CONFIG)"
    by (simp_all add: demoStandard_def b_initialize_def StandardViewer_def demoEnv_def
        newPipeline_def)
  have u: "viewportA (DualViewer DUAL_CONFIG) = None \<and> viewportB (DualViewer DUAL_CONFIG) = None"
      "b_pipeline (StandardViewer STANDARD_CONFIG) = None \<and>
       b_actors (StandardViewer STANDARD_CONFIG) = []"
    by (simp_all add: DualViewer_def StandardViewer_def)
  have r: "\<not> repeatRelease demoEnv" "repeatRelease (demoEnv\<lparr>repeatRelease := True\<rparr>)"
    by (simp_all add: demoEnv_def)
  show ?thesis
    using destroy_twice_repeats_release [OF h p, of demoEnv "DualViewer DUAL_CONFIG"
        "StandardViewer STANDARD_CONFIG"]
      destroy_twice_repeats_release [OF h p, of "demoEnv\<lparr>repeatRelease := True\<rparr>"
        "DualViewer DUAL_CONFIG" "StandardViewer STANDARD_CONFIG"] u r
    by simp
qed

subsection \<open>Messages\<close>

text \<open>
  C6. A message whose \<open>type\<close> is missing or is none of the types the listener has a
  case for changes nothing: the DualViewer with its suspended loads, its outbox and its
  list of uncaught errors is the same after the message as before, and so is the
  StandardViewer after both of its listeners have run.
\<close>

theorem malformed_message_ignored:
  "(field data ''type'' \<notin> dualTypes \<longrightarrow> step n E (Message data) sys = Some sys) \<and>
   (field data ''type'' \<notin> standardTypes \<longrightarrow> standardOnMessage data bsys = bsys)"
  by (simp add: dualTypes_def standardTypes_def onMessage_def standardOnMessage_def
      b_onMessage_def s_onMessage_def)

theorem malformed_message_ignored_witness:
  "step 0 demoEnv (Message [(''foo'', JStr ''bar'')]) demoSys = Some demoSys \<and>
   standardOnMessage [(''foo'', JStr ''bar'')] demoStdSys = demoStdSys \<and>
   step 0 demoEnv (Message [(''type'', JStr ''explode'')]) demoSys = Some demoSys \<and>
   standardOnMessage [(''type'', JStr ''explode'')] demoStdSys = demoStdSys"
proof -
  have h: "field [(''foo'', JStr ''bar'')] ''type'' \<notin> dualTypes"
      "field [(''foo'', JStr ''bar'')] ''type'' \<notin> standardTypes"
      "field [(''type'', JStr ''explode'')] ''type'' \<notin> dualTypes"
      "field [(''type'', JStr ''explode'')] ''type'' \<notin> standardTypes"
    by (auto simp: field_def dualTypes_def standardTypes_def)
  show ?thesis
    using malformed_message_ignored [of "[(''foo'', JStr ''bar'')]" 0 demoEnv demoSys demoStdSys]
      malformed_message_ignored [of "[(''type'', JStr ''explode'')]" 0 demoEnv demoSys demoStdSys] h
    by blast
qed

subsection \<open>Supporting facts\<close>

text \<open>
  In \<open>DualViewer.applyField\<close>, with field sync on, no range in the options and a
  dataset in each viewport, the range handed to both viewports is the union of the two
  native ranges.
\<close>

lemma applyField_range_is_union:
  assumes "truthy (syncFields s)" "\<not> truthy rng"
    and "viewportA s = Some a" "viewportB s = Some b"
    and "polyData a = Some d1" "polyData b = Some d2"
    and "nativeRange f d1 = Some (a0, a1)" "nativeRange f d2 = Some (b0, b1)"
  shows "fieldRange s f rng = Inr (JArr [JNum (min a0 b0), JNum (max a1 b1)])"
  using assms
  by (simp add: fieldRange_def loadedPolydatas_def calculateSynchronizedRange_def map_filter_def
      min.commute max.commute)

text \<open>
  A viewer constructed with \<open>syncCameras: false\<close> has a mesh loaded into viewport A and
  camera sync switched on afterwards. \<open>setCameraView\<close> then moves viewport A's camera
  only: it relies on the synchronisation for viewport B, and nothing was subscribed.
\<close>

lemma setCameraView_after_late_enable:
  "map_option (\<lambda>sys. poseAfter VpA (setCameraView (Suc (Suc 0)) demoEnv (JStr ''+X'')
        (setCameraSync (JBool True) (viewer sys))))
     (run (Suc (Suc 0)) demoEnv
        [Message [(''type'', JStr ''loadMeshA''), (''url'', JStr ''mesh1.obj'')], Resolved 0 mesh1]
        (demoSys\<lparr>viewer := unsyncedViewer\<rparr>))
   = Some (Some ((9, 0, 0), (0, 0, 0), (0, 0, 1), 1)) \<and>
   map_option (\<lambda>sys. poseAfter VpB (setCameraView (Suc (Suc 0)) demoEnv (JStr ''+X'')
        (setCameraSync (JBool True) (viewer sys))))
     (run (Suc (Suc 0)) demoEnv
        [Message [(''type'', JStr ''loadMeshA''), (''url'', JStr ''mesh1.obj'')], Resolved 0 mesh1]
        (demoSys\<lparr>viewer := unsyncedViewer\<rparr>))
   = Some (Some (pose_of newCamera))"
  by (simp add: eval_defs unsyncedViewer_eq setCameraView_def setCameraSync_def renderBoth_def
      rendered_def poseAfter_def finished_def cameraPose_def pose_of_def)

end
